theory Spec2Isabelle
  imports Main "HOL-Library.Multiset" "HOL-Library.Word"
begin

unbundle bit_operations_syntax

section \<open>WebWhatsAPI: the driver class of \<^verbatim>\<open>webwhatsapi/__init__.py\<close>\<close>

text \<open>
  The module defines one class, \<^verbatim>\<open>WhatsAPIDriver\<close>, whose methods drive a browser page
  through Selenium and through a JavaScript bridge (\<^verbatim>\<open>self.wapi_functions\<close>). Each method
  modelled here is a HOL function of the same name. What a method reads from the outside
  (the bridge, the Selenium driver, the clock, the file system, the codec and cipher
  libraries) is an argument of the function; an exception is the left summand of the
  result.
\<close>

subsection \<open>Exceptions\<close>

text \<open>
  \<^verbatim>\<open>WhatsAPIException\<close>, \<^verbatim>\<open>ChatNotFoundError\<close> and \<^verbatim>\<open>ContactNotFoundError\<close> are the
  module's own classes and carry their message. The others are the exceptions of Python
  and of the libraries that can pass through the modelled methods.
\<close>

datatype exn =
    WhatsAPIException string
  | ChatNotFoundError string
  | ContactNotFoundError string
  | NoSuchElementException
  | WebDriverException
  | JavascriptException
  | ValueError
  | KeyError
  | BinasciiError
  | NoSuchWindowException
  | FileExistsError
  | FileNotFoundError
  | OSError

subsection \<open>Raw records, typed messages and message groups\<close>

text \<open>
  A raw message is the dictionary the bridge returns; the driver reads only its
  \<^verbatim>\<open>"timestamp"\<close> entry (Unix seconds) and hands the whole record to
  \<^verbatim>\<open>factory_message\<close>. A raw message group is a raw chat record with a \<^verbatim>\<open>'messages'\<close>
  entry. \<^verbatim>\<open>MessageGroup(chat, messages)\<close> pairs a chat with its list of messages.
\<close>

record 'p raw_message =
  raw_timestamp :: int
  raw_payload :: 'p

record ('c, 'p) raw_message_group =
  raw_chat :: 'c
  raw_messages :: "'p raw_message list"

record ('chat, 'msg) MessageGroup =
  chat :: 'chat
  messages :: "'msg list"

subsection \<open>The clock\<close>

text \<open>
  \<^verbatim>\<open>int((datetime.now() - timedelta(days=7)).timestamp())\<close>. A \<^verbatim>\<open>datetime\<close> is modelled
  as its number of microseconds since the epoch; \<^verbatim>\<open>int\<close> truncates towards zero.
\<close>

definition timedelta_days :: "int \<Rightarrow> int" where
  "timedelta_days d = d * 86400 * 1000000"

definition int_timestamp :: "int \<Rightarrow> int" where
  "int_timestamp us = (if 0 \<le> us then us div 1000000 else - ((- us) div 1000000))"

definition seven_days_ago :: "int \<Rightarrow> int" where
  "seven_days_ago now = int_timestamp (now - timedelta_days 7)"

subsection \<open>Message synchronisation: \<^verbatim>\<open>get_unread\<close> and \<^verbatim>\<open>get_all_messages_until_date\<close>\<close>

text \<open>
  The bridge operations the two methods call. The page state \<open>'w\<close> is what the bridge
  reads; \<^verbatim>\<open>loadEarlierMessagesTillDateAllChats\<close> changes it.
\<close>

record ('w, 'c, 'p) sync_bridge =
  getUnreadMessages :: "bool \<Rightarrow> bool \<Rightarrow> 'w \<Rightarrow> exn + ('c, 'p) raw_message_group list"
  getUnreadMessagesUsingChatId ::
    "string \<Rightarrow> bool \<Rightarrow> bool \<Rightarrow> 'w \<Rightarrow> exn + ('c, 'p) raw_message_group list"
  loadEarlierMessagesTillDateAllChats :: "int \<Rightarrow> 'w \<Rightarrow> exn + 'w"
  getAllLatestMessages :: "bool \<Rightarrow> bool \<Rightarrow> 'w \<Rightarrow> exn + ('c, 'p) raw_message_group list"

text \<open>
  \<^verbatim>\<open>factory_chat\<close>, \<^verbatim>\<open>factory_message\<close> and the \<^verbatim>\<open>timestamp\<close> attribute of a typed message
  come from \<^verbatim>\<open>webwhatsapi.objects\<close>; they are arguments here.
\<close>

record ('c, 'p, 'chat, 'msg, 'k) objects =
  factory_chat :: "('c, 'p) raw_message_group \<Rightarrow> 'chat"
  factory_message :: "'p raw_message \<Rightarrow> 'msg"
  timestamp :: "'msg \<Rightarrow> 'k"

text \<open>\<^verbatim>\<open>sorted(iterable, key=...)\<close> is a stable sort, as \<^const>\<open>sort_key\<close> is.\<close>

definition sorted_key :: "('a \<Rightarrow> 'k::linorder) \<Rightarrow> 'a list \<Rightarrow> 'a list" where
  "sorted_key f xs = sort_key f xs"

text \<open>
  The body of the loop of \<^verbatim>\<open>get_unread\<close> for one raw group: with \<^verbatim>\<open>filter_week\<close> the
  messages are filtered on the raw timestamp, classified and sorted; without it they are
  only classified.
\<close>

definition unread_group ::
  "('c, 'p, 'chat, 'msg, 'k::linorder) objects \<Rightarrow> bool \<Rightarrow> int \<Rightarrow>
   ('c, 'p) raw_message_group \<Rightarrow> ('chat, 'msg) MessageGroup" where
  "unread_group ob filter_week sda raw_message_group =
     (let chat' = factory_chat ob raw_message_group;
          messages' =
            (if filter_week
             then sorted_key (timestamp ob)
                    (map (factory_message ob)
                       (filter (\<lambda>msg. raw_timestamp msg \<ge> sda)
                          (raw_messages raw_message_group)))
             else map (factory_message ob) (raw_messages raw_message_group))
      in \<lparr>chat = chat', messages = messages'\<rparr>)"

text \<open>The loop \<^verbatim>\<open>for raw_message_group in raw_message_groups: ... append(...)\<close>.\<close>

fun append_groups :: "('g \<Rightarrow> 'r) \<Rightarrow> 'g list \<Rightarrow> 'r list \<Rightarrow> 'r list" where
  "append_groups body [] unread_messages = unread_messages"
| "append_groups body (g # gs) unread_messages =
     append_groups body gs (unread_messages @ [body g])"

text \<open>The choice of the bridge call: all chats, or \<^verbatim>\<open>specific_chat\<close>.\<close>

definition raw_unread ::
  "('w, 'c, 'p) sync_bridge \<Rightarrow> bool \<Rightarrow> bool \<Rightarrow> string option \<Rightarrow> 'w \<Rightarrow>
   exn + ('c, 'p) raw_message_group list" where
  "raw_unread wapi include_me include_notifications specific_chat w =
     (case specific_chat of
        None \<Rightarrow> getUnreadMessages wapi include_me include_notifications w
      | Some c \<Rightarrow> getUnreadMessagesUsingChatId wapi c include_me include_notifications w)"

definition get_unread ::
  "('w, 'c, 'p) sync_bridge \<Rightarrow> ('c, 'p, 'chat, 'msg, 'k::linorder) objects \<Rightarrow> int \<Rightarrow>
   bool \<Rightarrow> bool \<Rightarrow> bool \<Rightarrow> string option \<Rightarrow> 'w \<Rightarrow>
   exn + ('chat, 'msg) MessageGroup list" where
  "get_unread wapi ob now include_me include_notifications filter_week specific_chat w =
     (let sda = seven_days_ago now in
      case raw_unread wapi include_me include_notifications specific_chat w of
        Inl e \<Rightarrow> Inl e
      | Inr raw_message_groups \<Rightarrow>
          Inr (append_groups (unread_group ob filter_week sda) raw_message_groups []))"

text \<open>
  \<^verbatim>\<open>get_all_messages_until_date\<close>: the date is clamped, the bridge loads history back to
  the clamped date, then the latest messages are fetched, filtered, classified and sorted.
\<close>

definition effective_date :: "int option \<Rightarrow> int \<Rightarrow> int" where
  "effective_date date sda = (case date of None \<Rightarrow> sda | Some d \<Rightarrow> max d sda)"

definition until_group ::
  "('c, 'p, 'chat, 'msg, 'k::linorder) objects \<Rightarrow> int \<Rightarrow>
   ('c, 'p) raw_message_group \<Rightarrow> ('chat, 'msg) MessageGroup" where
  "until_group ob date raw_message_group =
     \<lparr>chat = factory_chat ob raw_message_group,
      messages =
        sorted_key (timestamp ob)
          (map (factory_message ob)
             (filter (\<lambda>msg. raw_timestamp msg \<ge> date) (raw_messages raw_message_group)))\<rparr>"

definition get_all_messages_until_date ::
  "('w, 'c, 'p) sync_bridge \<Rightarrow> ('c, 'p, 'chat, 'msg, 'k::linorder) objects \<Rightarrow> int \<Rightarrow>
   int option \<Rightarrow> bool \<Rightarrow> bool \<Rightarrow> 'w \<Rightarrow>
   exn + (('chat, 'msg) MessageGroup list \<times> 'w)" where
  "get_all_messages_until_date wapi ob now date include_me include_notifications w =
     (let date' = effective_date date (seven_days_ago now) in
      case loadEarlierMessagesTillDateAllChats wapi date' w of
        Inl e \<Rightarrow> Inl e
      | Inr w' \<Rightarrow>
          (case getAllLatestMessages wapi include_me include_notifications w' of
             Inl e \<Rightarrow> Inl e
           | Inr raw_message_groups \<Rightarrow>
               Inr (append_groups (until_group ob date') raw_message_groups [], w')))"

subsection \<open>Lookups by id\<close>

text \<open>
  What a bridge lookup hands back to Python: \<^verbatim>\<open>None\<close> (JavaScript \<^verbatim>\<open>null\<close> or
  \<^verbatim>\<open>undefined\<close>), a boolean, or a record. \<open>truthy\<close> is Python's truth value of it, as
  \<^verbatim>\<open>if result:\<close> reads it; a record returned by the bridge has entries and is true.
\<close>

datatype 'r bridge_value = PyNone | PyBool bool | PyRecord 'r

fun truthy :: "'r bridge_value \<Rightarrow> bool" where
  "truthy PyNone = False"
| "truthy (PyBool b) = b"
| "truthy (PyRecord r) = True"

record ('w, 'r) lookup_bridge =
  getMessageById :: "string \<Rightarrow> 'w \<Rightarrow> exn + 'r bridge_value"
  getContact :: "string \<Rightarrow> 'w \<Rightarrow> exn + 'r bridge_value"
  getChatById :: "string \<Rightarrow> 'w \<Rightarrow> exn + 'r bridge_value"

text \<open>
  \<^verbatim>\<open>get_message_by_id\<close> returns either the typed message or the bridge's value as it
  came: \<^verbatim>\<open>if result: result = factory_message(result, self)\<close>, then
  \<^verbatim>\<open>return result\<close>.
\<close>

datatype ('r, 'm) message_result = Typed 'm | Untyped "'r bridge_value"

definition get_message_by_id ::
  "('w, 'r) lookup_bridge \<Rightarrow> ('r bridge_value \<Rightarrow> 'm) \<Rightarrow> string \<Rightarrow> 'w \<Rightarrow>
   exn + ('r, 'm) message_result" where
  "get_message_by_id wapi factory_message' message_id w =
     (case getMessageById wapi message_id w of
        Inl e \<Rightarrow> Inl e
      | Inr result \<Rightarrow>
          if truthy result then Inr (Typed (factory_message' result))
          else Inr (Untyped result))"

definition get_contact_from_id ::
  "('w, 'r) lookup_bridge \<Rightarrow> ('r bridge_value \<Rightarrow> 'contact) \<Rightarrow> string \<Rightarrow> 'w \<Rightarrow>
   exn + 'contact" where
  "get_contact_from_id wapi Contact contact_id w =
     (case getContact wapi contact_id w of
        Inl e \<Rightarrow> Inl e
      | Inr contact \<Rightarrow>
          if contact = PyNone
          then Inl (ContactNotFoundError (''Contact '' @ contact_id @ '' not found''))
          else Inr (Contact contact))"

definition get_chat_from_id ::
  "('w, 'r) lookup_bridge \<Rightarrow> ('r bridge_value \<Rightarrow> 'chat) \<Rightarrow> string \<Rightarrow> 'w \<Rightarrow>
   exn + 'chat" where
  "get_chat_from_id wapi factory_chat' chat_id w =
     (case getChatById wapi chat_id w of
        Inl e \<Rightarrow> Inl e
      | Inr chat' \<Rightarrow>
          if truthy chat' then Inr (factory_chat' chat')
          else Inl (ChatNotFoundError (''Chat '' @ chat_id @ '' not found'')))"

subsection \<open>The Selenium driver: status probe and QR code\<close>

datatype WhatsAPIDriverStatus = Unknown | NoDriver | NotConnected | NotLoggedIn | LoggedIn

text \<open>The entries of \<^verbatim>\<open>_SELECTORS\<close> the modelled methods use.\<close>

definition selector_mainPage :: string where
  "selector_mainPage = ''.app.two''"

definition selector_qrCode :: string where
  \<open>selector_qrCode = ''img[alt="Scan me!"]''\<close>

text \<open>
  The operations of the Selenium driver, over the driver's state \<open>'w\<close> (session and
  page); \<open>'e\<close> is a web element. \<^verbatim>\<open>find_element_by_css_selector\<close> raises
  \<^verbatim>\<open>NoSuchElementException\<close> when nothing matches, and like every driver call it can raise
  other exceptions.
\<close>

record ('w, 'e) selenium =
  session_id :: "'w \<Rightarrow> string option"
  page_source :: "'w \<Rightarrow> exn + string"
  find_element_by_css_selector :: "string \<Rightarrow> 'w \<Rightarrow> exn + 'e"
  click :: "'e \<Rightarrow> 'w \<Rightarrow> exn + 'w"
  screenshot :: "'e \<Rightarrow> string \<Rightarrow> 'w \<Rightarrow> exn + bool"

text \<open>
  \<^verbatim>\<open>get_status\<close>. \<^verbatim>\<open>self.driver\<close> is \<^verbatim>\<open>None\<close> or a driver. Each probe stands in a
  \<^verbatim>\<open>try\<close> whose handler is \<^verbatim>\<open>except NoSuchElementException: pass\<close>.
\<close>

definition get_status :: "('w, 'e) selenium \<Rightarrow> 'w option \<Rightarrow> exn + WhatsAPIDriverStatus" where
  "get_status sel driver =
     (case driver of
        None \<Rightarrow> Inr NotConnected
      | Some d \<Rightarrow>
          if session_id sel d = None then Inr NotConnected
          else
            (case find_element_by_css_selector sel selector_mainPage d of
               Inr main \<Rightarrow> Inr LoggedIn
             | Inl e \<Rightarrow>
                 if e \<noteq> NoSuchElementException then Inl e
                 else
                   (case find_element_by_css_selector sel selector_qrCode d of
                      Inr qr \<Rightarrow> Inr NotLoggedIn
                    | Inl e' \<Rightarrow>
                        if e' \<noteq> NoSuchElementException then Inl e' else Inr Unknown)))"

text \<open>\<^verbatim>\<open>reload_qr\<close>: find the QR element and click it.\<close>

definition reload_qr :: "('w, 'e) selenium \<Rightarrow> 'w \<Rightarrow> exn + 'w" where
  "reload_qr sel d =
     (case find_element_by_css_selector sel selector_qrCode d of
        Inl e \<Rightarrow> Inl e
      | Inr qr \<Rightarrow> click sel qr d)"

text \<open>\<^verbatim>\<open>needle in haystack\<close> on strings.\<close>

fun contains :: "string \<Rightarrow> string \<Rightarrow> bool" where
  "contains needle [] = (needle = [])"
| "contains needle (c # cs) =
     (take (length needle) (c # cs) = needle \<or> contains needle cs)"

text \<open>
  The operating-system calls of \<^verbatim>\<open>get_qr\<close>: \<^verbatim>\<open>tempfile.mkstemp(prefix, suffix)\<close>,
  \<^verbatim>\<open>os.open(filename, os.O_RDWR | os.O_CREAT)\<close>, \<^verbatim>\<open>os.path.abspath\<close> and
  \<^verbatim>\<open>os.close\<close>.
\<close>

record os_calls =
  mkstemp :: "string \<Rightarrow> string \<Rightarrow> exn + (nat \<times> string)"
  os_open :: "string \<Rightarrow> exn + nat"
  abspath :: "string \<Rightarrow> string"
  os_close :: "nat \<Rightarrow> exn + unit"

text \<open>
  \<^verbatim>\<open>get_qr\<close> returns the path of the image and leaves the driver in the state after a
  possible reload click.
\<close>

definition get_qr ::
  "('w, 'e) selenium \<Rightarrow> os_calls \<Rightarrow> string \<Rightarrow> string option \<Rightarrow> 'w \<Rightarrow> exn + (string \<times> 'w)" where
  "get_qr sel os username filename d =
     (case page_source sel d of
        Inl e \<Rightarrow> Inl e
      | Inr src \<Rightarrow>
          (case (if contains ''Click to reload QR code'' src then reload_qr sel d else Inr d) of
             Inl e \<Rightarrow> Inl e
           | Inr d' \<Rightarrow>
               (case find_element_by_css_selector sel selector_qrCode d' of
                  Inl e \<Rightarrow> Inl e
                | Inr qr \<Rightarrow>
                    (case (case filename of
                             None \<Rightarrow> mkstemp os username ''.png''
                           | Some fname \<Rightarrow>
                               (case os_open os fname of
                                  Inl e \<Rightarrow> Inl e
                                | Inr fd \<Rightarrow> Inr (fd, abspath os fname)))
                     of Inl e \<Rightarrow> Inl e
                      | Inr (fd, fn_png) \<Rightarrow>
                          (case screenshot sel qr fn_png d' of
                             Inl e \<Rightarrow> Inl e
                           | Inr ok \<Rightarrow>
                               (case os_close os fd of
                                  Inl e \<Rightarrow> Inl e
                                | Inr u \<Rightarrow> Inr (fn_png, d')))))))"

text \<open>
  Driver states for the examples. The state is the page shown: the QR page, the main
  application (after login), or a browser whose window has been closed.
\<close>

datatype example_page = QrPage | MainPage | WindowClosed

definition example_selenium :: "(example_page, string) selenium" where
  "example_selenium =
     \<lparr>session_id = (\<lambda>d. Some ''session-1''),
      page_source = (\<lambda>d. case d of
                       QrPage \<Rightarrow> Inr ''<div class=qr-wrapper-container>...</div>''
                     | MainPage \<Rightarrow> Inr ''<div class=app two>...</div>''
                     | WindowClosed \<Rightarrow> Inl NoSuchWindowException),
      find_element_by_css_selector =
        (\<lambda>selector d. case d of
             QrPage \<Rightarrow> if selector = selector_qrCode then Inr ''qr-element''
                       else Inl NoSuchElementException
           | MainPage \<Rightarrow> if selector = selector_mainPage then Inr ''main-element''
                         else Inl NoSuchElementException
           | WindowClosed \<Rightarrow> Inl NoSuchWindowException),
      click = (\<lambda>element d. Inr d),
      screenshot = (\<lambda>element path d. Inr True)\<rparr>"

definition example_os :: os_calls where
  "example_os =
     \<lparr>mkstemp = (\<lambda>prefix suffix. Inr (3, ''/tmp/'' @ prefix @ ''x1y2z3'' @ suffix)),
      os_open = (\<lambda>path. Inr 3),
      abspath = (\<lambda>path. ''/home/user/'' @ path),
      os_close = (\<lambda>fd. Inr ())\<rparr>"

definition example_lookup_bridge :: "(unit, string) lookup_bridge" where
  "example_lookup_bridge =
     \<lparr>getMessageById = (\<lambda>i w. if i = ''known'' then Inr (PyRecord ''raw message'')
                              else Inr (PyBool False)),
      getContact = (\<lambda>i w. if i = ''known'' then Inr (PyRecord ''raw contact'') else Inr PyNone),
      getChatById = (\<lambda>i w. if i = ''known'' then Inr (PyRecord ''raw chat'')
                           else Inr (PyBool False))\<rparr>"

subsection \<open>Media download and decryption: \<^verbatim>\<open>download_media\<close>\<close>

type_synonym byte = "8 word"
type_synonym bytes = "byte list"

text \<open>
  The attributes of a media message that \<^verbatim>\<open>download_media\<close> reads. \<^verbatim>\<open>content\<close> is
  \<open>None\<close> when the attribute is missing (reading it raises \<^verbatim>\<open>AttributeError\<close>, which the
  method catches) or holds \<^verbatim>\<open>None\<close>. \<^verbatim>\<open>crypt_keys\<close> maps a media type to the hex string
  of its application-info constant.
\<close>

record media_message =
  content :: "string option"
  client_url :: string
  media_key :: string
  crypt_keys :: "string \<Rightarrow> string option"
  type :: string

text \<open>
  What the method calls outside the module: the bridge's \<^verbatim>\<open>downloadFile\<close>,
  \<^verbatim>\<open>base64.b64decode\<close>, \<^verbatim>\<open>binascii.unhexlify\<close>, \<^verbatim>\<open>HKDFv3().deriveSecrets\<close> and the AES
  block decryption of the cipher backend (key, then block).
\<close>

record 'w media_calls =
  downloadFile :: "string \<Rightarrow> 'w \<Rightarrow> exn + string"
  b64decode :: "string \<Rightarrow> exn + bytes"
  unhexlify :: "string \<Rightarrow> exn + bytes"
  deriveSecrets :: "bytes \<Rightarrow> bytes \<Rightarrow> nat \<Rightarrow> exn + bytes"
  aes_decrypt_block :: "bytes \<Rightarrow> bytes \<Rightarrow> bytes"

definition download_file :: "'w media_calls \<Rightarrow> string \<Rightarrow> 'w \<Rightarrow> exn + bytes" where
  "download_file lib url w =
     (case downloadFile lib url w of Inl e \<Rightarrow> Inl e | Inr s \<Rightarrow> b64decode lib s)"

text \<open>
  \<^verbatim>\<open>ByteUtil.split(input, firstLength, secondLength)\<close> returns the first
  \<^verbatim>\<open>firstLength\<close> bytes and the next \<^verbatim>\<open>secondLength\<close> bytes.
\<close>

definition ByteUtil_split :: "bytes \<Rightarrow> nat \<Rightarrow> nat \<Rightarrow> bytes list" where
  "ByteUtil_split input firstLength secondLength =
     [take firstLength input, take secondLength (drop firstLength input)]"

text \<open>The slice \<^verbatim>\<open>xs[:-n]\<close> for a positive \<open>n\<close>: empty when \<open>xs\<close> has at most \<open>n\<close> items.\<close>

definition slice_until_last :: "nat \<Rightarrow> 'a list \<Rightarrow> 'a list" where
  "slice_until_last n xs = take (length xs - n) xs"

text \<open>
  AES in CBC mode without padding, as \<^verbatim>\<open>Cipher(algorithms.AES(key), modes.CBC(iv))\<close>
  gives it: a plaintext block is the block decryption of the ciphertext block, XORed with
  the previous ciphertext block (the IV for the first).
\<close>

definition xor_bytes :: "bytes \<Rightarrow> bytes \<Rightarrow> bytes" where
  "xor_bytes a b = map2 (XOR) a b"

function cbc_decrypt :: "(bytes \<Rightarrow> bytes) \<Rightarrow> bytes \<Rightarrow> bytes \<Rightarrow> bytes" where
  "cbc_decrypt D prev data =
     (if data = [] then []
      else xor_bytes (D (take 16 data)) prev @ cbc_decrypt D (take 16 data) (drop 16 data))"
  by pat_completeness auto
termination
  by (relation "measure (\<lambda>(D, prev, data). length data)") auto

declare cbc_decrypt.simps [simp del]

text \<open>
  The cipher object and its decryptor. \<^verbatim>\<open>algorithms.AES\<close> raises \<^verbatim>\<open>ValueError\<close> for a
  key that is not 16, 24 or 32 bytes long, the \<^verbatim>\<open>Cipher\<close> constructor for an IV that is
  not one block long; \<^verbatim>\<open>decryptor.update(data) + decryptor.finalize()\<close> is the whole
  decryption, and \<^verbatim>\<open>finalize\<close> raises \<^verbatim>\<open>ValueError\<close> when the data is not a multiple of
  the block length.
\<close>

definition Cipher_AES_CBC_decrypt ::
  "(bytes \<Rightarrow> bytes \<Rightarrow> bytes) \<Rightarrow> bytes \<Rightarrow> bytes \<Rightarrow> bytes \<Rightarrow> exn + bytes" where
  "Cipher_AES_CBC_decrypt D cipher_key iv data =
     (if length cipher_key \<notin> {16, 24, 32} then Inl ValueError
      else if length iv \<noteq> 16 then Inl ValueError
      else if length data mod 16 \<noteq> 0 then Inl ValueError
      else Inr (cbc_decrypt (D cipher_key) iv data))"

text \<open>The part of \<^verbatim>\<open>download_media\<close> after the preview: download, derive, decrypt.\<close>

definition download_and_decrypt :: "'w media_calls \<Rightarrow> media_message \<Rightarrow> 'w \<Rightarrow> exn + bytes" where
  "download_and_decrypt lib media_msg w =
     (case download_file lib (client_url media_msg) w of
        Inl e \<Rightarrow> Inl e
      | Inr file_data \<Rightarrow>
     (case b64decode lib (media_key media_msg) of
        Inl e \<Rightarrow> Inl e
      | Inr media_key' \<Rightarrow>
     (case crypt_keys media_msg (type media_msg) of
        None \<Rightarrow> Inl KeyError
      | Some hex \<Rightarrow>
     (case unhexlify lib hex of
        Inl e \<Rightarrow> Inl e
      | Inr info \<Rightarrow>
     (case deriveSecrets lib media_key' info 112 of
        Inl e \<Rightarrow> Inl e
      | Inr derivative \<Rightarrow>
          (let parts = ByteUtil_split derivative 16 32;
               iv = parts ! 0;
               cipher_key = parts ! 1;
               e_file = slice_until_last 10 file_data
           in Cipher_AES_CBC_decrypt (aes_decrypt_block lib) cipher_key iv e_file))))))"

definition download_media ::
  "'w media_calls \<Rightarrow> media_message \<Rightarrow> bool \<Rightarrow> 'w \<Rightarrow> exn + bytes" where
  "download_media lib media_msg download_preview w =
     (case content media_msg of
        None \<Rightarrow> download_and_decrypt lib media_msg w
      | Some c \<Rightarrow>
          if c \<noteq> [] \<and> download_preview then b64decode lib c
          else download_and_decrypt lib media_msg w)"

text \<open>
  How a fixture ciphertext is made: the plaintext is padded to whole blocks as PKCS#7
  does, with \<open>n\<close> bytes of value \<open>n\<close> where \<open>1 \<le> n \<le> 16\<close>, and the padded plaintext is
  encrypted in CBC mode with a block encryption \<open>E\<close>, the inverse of
  \<^const>\<open>cbc_decrypt\<close>.
\<close>

definition pkcs7_padding :: "bytes \<Rightarrow> bytes" where
  "pkcs7_padding plaintext =
     replicate (16 - length plaintext mod 16) (of_nat (16 - length plaintext mod 16))"

function cbc_encrypt :: "(bytes \<Rightarrow> bytes) \<Rightarrow> bytes \<Rightarrow> bytes \<Rightarrow> bytes" where
  "cbc_encrypt E prev data =
     (if data = [] then []
      else E (xor_bytes (take 16 data) prev) @
           cbc_encrypt E (E (xor_bytes (take 16 data) prev)) (drop 16 data))"
  by pat_completeness auto
termination
  by (relation "measure (\<lambda>(E, prev, data). length data)") auto

declare cbc_encrypt.simps [simp del]

text \<open>
  The decryption as the specification words it: HKDF output \<open>d\<close> of 112 bytes, bytes 0-15
  the IV, bytes 16-47 the cipher key, the blob without its last 10 bytes as ciphertext.
  \<open>byte_range d lo hi\<close> is the bytes of \<open>d\<close> at the positions \<open>lo\<close> to \<open>hi\<close>.
\<close>

definition byte_range :: "bytes \<Rightarrow> nat \<Rightarrow> nat \<Rightarrow> bytes" where
  "byte_range d lo hi = map (\<lambda>i. d ! i) [lo..<Suc hi]"

definition spec_plaintext :: "(bytes \<Rightarrow> bytes \<Rightarrow> bytes) \<Rightarrow> bytes \<Rightarrow> bytes \<Rightarrow> exn + bytes" where
  "spec_plaintext D d blob =
     Cipher_AES_CBC_decrypt D (byte_range d 16 47) (byte_range d 0 15)
       (rev (drop 10 (rev blob)))"

subsection \<open>Codecs and stand-in primitives for the media examples\<close>

text \<open>
  Base64 decoding of padded input over the standard alphabet, where it agrees with
  \<^verbatim>\<open>b64decode\<close>; any other input is reported as \<^verbatim>\<open>binascii.Error\<close> here.
\<close>

definition b64_value :: "char \<Rightarrow> nat option" where
  "b64_value c =
     (let n = (of_char c :: nat) in
      if 65 \<le> n \<and> n \<le> 90 then Some (n - 65)
      else if 97 \<le> n \<and> n \<le> 122 then Some (n - 71)
      else if 48 \<le> n \<and> n \<le> 57 then Some (n + 4)
      else if n = 43 then Some 62
      else if n = 47 then Some 63
      else None)"

fun b64decode_padded :: "string \<Rightarrow> exn + bytes" where
  "b64decode_padded [] = Inr []"
| "b64decode_padded (a # b # c # d # rest) =
     (case (b64_value a, b64_value b) of
        (Some x, Some y) \<Rightarrow>
          if rest = [] \<and> c = CHR ''='' \<and> d = CHR ''='' then Inr [of_nat (x * 4 + y div 16)]
          else
            (case b64_value c of
               None \<Rightarrow> Inl BinasciiError
             | Some z \<Rightarrow>
                 if rest = [] \<and> d = CHR ''=''
                 then Inr [of_nat (x * 4 + y div 16), of_nat ((y mod 16) * 16 + z div 4)]
                 else
                   (case b64_value d of
                      None \<Rightarrow> Inl BinasciiError
                    | Some u \<Rightarrow>
                        (case b64decode_padded rest of
                           Inl e \<Rightarrow> Inl e
                         | Inr bs \<Rightarrow>
                             Inr (of_nat (x * 4 + y div 16) #
                                  of_nat ((y mod 16) * 16 + z div 4) #
                                  of_nat ((z mod 4) * 64 + u) # bs))))
      | _ \<Rightarrow> Inl BinasciiError)"
| "b64decode_padded _ = Inl BinasciiError"

text \<open>\<^verbatim>\<open>binascii.unhexlify\<close> on an ASCII string.\<close>

definition hex_value :: "char \<Rightarrow> nat option" where
  "hex_value c =
     (let n = (of_char c :: nat) in
      if 48 \<le> n \<and> n \<le> 57 then Some (n - 48)
      else if 97 \<le> n \<and> n \<le> 102 then Some (n - 87)
      else if 65 \<le> n \<and> n \<le> 70 then Some (n - 55)
      else None)"

fun unhexlify_ascii :: "string \<Rightarrow> exn + bytes" where
  "unhexlify_ascii [] = Inr []"
| "unhexlify_ascii [a] = Inl BinasciiError"
| "unhexlify_ascii (a # b # rest) =
     (case (hex_value a, hex_value b) of
        (Some x, Some y) \<Rightarrow>
          (case unhexlify_ascii rest of
             Inl e \<Rightarrow> Inl e
           | Inr bs \<Rightarrow> Inr (of_nat (16 * x + y) # bs))
      | _ \<Rightarrow> Inl BinasciiError)"

text \<open>
  Stand-ins for the two cryptographic primitives, for the examples only: a key
  derivation that returns the bytes \<open>0, 1, 2, ...\<close> of the requested length, and a block
  cipher that XORs the block with the first 16 key bytes (its own inverse).
\<close>

definition standin_deriveSecrets :: "bytes \<Rightarrow> bytes \<Rightarrow> nat \<Rightarrow> exn + bytes" where
  "standin_deriveSecrets ikm info n = Inr (map of_nat [0..<n])"

definition standin_block :: "bytes \<Rightarrow> bytes \<Rightarrow> bytes" where
  "standin_block k b = xor_bytes b (take 16 k)"

text \<open>
  The bridge of the media examples serves four blobs: at \<^verbatim>\<open>/short\<close> the three bytes
  \<open>00 01 02\<close>; at \<^verbatim>\<open>/odd\<close> the 13 bytes \<open>00 .. 0c\<close>; at \<^verbatim>\<open>/hello\<close> and \<^verbatim>\<open>/image\<close> two
  fixtures, the five bytes of \<^verbatim>\<open>Hello\<close> and the 16 bytes of \<^verbatim>\<open>Hello, WhatsApp!\<close>, each
  padded as PKCS#7 does, encrypted in CBC mode with the stand-ins under IV \<open>00..0f\<close> and
  key \<open>10..2f\<close>, and followed by the ten tag bytes \<open>f0 .. f9\<close>.
\<close>

definition example_media_calls :: "unit media_calls" where
  "example_media_calls =
     \<lparr>downloadFile = (\<lambda>url w.
         if url = ''/short'' then Inr ''AAEC''
         else if url = ''/odd'' then Inr ''AAECAwQFBgcICQoLDA==''
         else if url = ''/hello'' then Inr ''WHV8fH8bGxsbGxsbGxsbG/Dx8vP09fb3+Pk=''
         else if url = ''/image''
           then Inr ''WHV8fH88MEd4cWRjUWBgMVh0fn97OTZAcHhuaF1tbj7w8fLz9PX29/j5''
         else Inl JavascriptException),
      b64decode = b64decode_padded,
      unhexlify = unhexlify_ascii,
      deriveSecrets = standin_deriveSecrets,
      aes_decrypt_block = standin_block\<rparr>"

definition example_media_message :: "string \<Rightarrow> media_message" where
  "example_media_message url =
     \<lparr>content = None,
      client_url = url,
      media_key = ''AAAAAAAAAAAAAAAAAAAAAAAAAAAAAAAAAAAAAAAAAAA='',
      crypt_keys = [''image'' \<mapsto> ''576861747341707020496d616765204b657973'',
                    ''document'' \<mapsto> ''576861747341707020446f63756d656e74204b657973''],
      type = ''image''\<rparr>"

definition short_plaintext :: bytes where
  "short_plaintext = map (\<lambda>c. of_nat (of_char c)) ''Hello''"

definition hello_plaintext :: bytes where
  "hello_plaintext = map (\<lambda>c. of_nat (of_char c)) ''Hello, WhatsApp!''"

definition example_key :: bytes where
  "example_key = map of_nat [16..<48]"

definition example_iv :: bytes where
  "example_iv = map of_nat [0..<16]"

definition hello_tag :: bytes where
  "hello_tag = [0xf0, 0xf1, 0xf2, 0xf3, 0xf4, 0xf5, 0xf6, 0xf7, 0xf8, 0xf9]"

subsection \<open>Saving the profile: \<^verbatim>\<open>save_firefox_profile\<close>\<close>

text \<open>
  The file system: a directory is a list of named entries, a file has a content. The
  state maps the paths of the directories the method names (the live profile
  \<^verbatim>\<open>self._profile.path\<close>, the permanent profile \<^verbatim>\<open>self._profile_path\<close> and the temporary
  copy beside it) to their trees; what lies inside one of them is reached through its
  tree. None of these paths lies inside another.
\<close>

datatype node = File string | Dir "(string \<times> node) list"

type_synonym filesystem = "string \<Rightarrow> node option"

definition lock_names :: "string list" where
  "lock_names = [''parent.lock'', ''lock'', ''.parentlock'']"

text \<open>
  The tree \<^verbatim>\<open>shutil.copytree(..., ignore=shutil.ignore_patterns("parent.lock", "lock",
  ".parentlock"))\<close> writes: at every level the entries with an ignored name are left out.
\<close>

fun copy_ignoring :: "node \<Rightarrow> node" where
  "copy_ignoring (File c) = File c"
| "copy_ignoring (Dir entries) =
     Dir (map (\<lambda>e. (fst e, copy_ignoring (snd e)))
            (filter (\<lambda>e. fst e \<notin> set lock_names) entries))"

text \<open>\<^verbatim>\<open>except OSError\<close> catches \<^verbatim>\<open>OSError\<close> and its subclasses.\<close>

definition is_OSError :: "exn \<Rightarrow> bool" where
  "is_OSError e = (e = OSError \<or> e = FileExistsError \<or> e = FileNotFoundError)"

definition path_exists :: "filesystem \<Rightarrow> string \<Rightarrow> bool" where
  "path_exists fs p = (fs p \<noteq> None)"

definition listdir :: "filesystem \<Rightarrow> string \<Rightarrow> exn + string list" where
  "listdir fs p =
     (case fs p of
        None \<Rightarrow> Inl FileNotFoundError
      | Some (File c) \<Rightarrow> Inl OSError
      | Some (Dir entries) \<Rightarrow> Inr (map fst entries))"

text \<open>
  \<^verbatim>\<open>shutil.copytree(src, dst, ignore=...)\<close>: the source must be a directory and the
  destination must not exist.
\<close>

definition copytree :: "filesystem \<Rightarrow> string \<Rightarrow> string \<Rightarrow> exn + filesystem" where
  "copytree fs src dst =
     (case fs src of
        None \<Rightarrow> Inl FileNotFoundError
      | Some (File c) \<Rightarrow> Inl OSError
      | Some (Dir entries) \<Rightarrow>
          if fs dst \<noteq> None then Inl FileExistsError
          else Inr (fs(dst \<mapsto> copy_ignoring (Dir entries))))"

text \<open>
  \<^verbatim>\<open>shutil.rmtree(path)\<close>. Whether the removal of an existing directory goes through is
  the environment's choice: \<open>leaves path tree\<close> is \<open>None\<close> when it does, and \<open>Some rest\<close> when
  it raises \<^verbatim>\<open>OSError\<close> with \<open>rest\<close> left at the path.
\<close>

definition rmtree ::
  "(string \<Rightarrow> node \<Rightarrow> node option) \<Rightarrow> filesystem \<Rightarrow> string \<Rightarrow> (exn + unit) \<times> filesystem" where
  "rmtree leaves fs p =
     (case fs p of
        None \<Rightarrow> (Inl FileNotFoundError, fs)
      | Some (File c) \<Rightarrow> (Inl OSError, fs)
      | Some (Dir entries) \<Rightarrow>
          (case leaves p (Dir entries) of
             None \<Rightarrow> (Inr (), fs(p := None))
           | Some rest \<Rightarrow> (Inl OSError, fs(p \<mapsto> rest))))"

definition basename :: "string \<Rightarrow> string" where
  "basename p = rev (takeWhile (\<lambda>c. c \<noteq> CHR ''/'') (rev p))"

text \<open>
  \<^verbatim>\<open>shutil.move(src, dst)\<close>: a rename when the destination does not exist; a move into the
  destination when that is a directory (refused when the name is taken there).
\<close>

definition move :: "filesystem \<Rightarrow> string \<Rightarrow> string \<Rightarrow> exn + filesystem" where
  "move fs src dst =
     (case fs src of
        None \<Rightarrow> Inl FileNotFoundError
      | Some n \<Rightarrow>
          (case fs dst of
             None \<Rightarrow> Inr ((fs(src := None))(dst \<mapsto> n))
           | Some (Dir entries) \<Rightarrow>
               if basename src \<in> fst ` set entries then Inl OSError
               else Inr ((fs(src := None))(dst \<mapsto> Dir (entries @ [(basename src, n)])))
           | Some (File c) \<Rightarrow>
               (case n of
                  File c' \<Rightarrow> Inr ((fs(src := None))(dst \<mapsto> n))
                | Dir entries \<Rightarrow> Inl FileExistsError)))"

text \<open>Writing an entry of a directory: replaced where the name exists, added otherwise.\<close>

fun put_entry :: "(string \<times> node) list \<Rightarrow> string \<Rightarrow> node \<Rightarrow> (string \<times> node) list" where
  "put_entry [] name n = [(name, n)]"
| "put_entry (e # entries) name n =
     (if fst e = name then (name, n) # entries else e # put_entry entries name n)"

text \<open>
  One turn of the loop of the branch without \<^verbatim>\<open>remove_old\<close>: a directory of the live
  profile goes through \<^verbatim>\<open>copytree\<close> (which creates the destination's parents and refuses
  an existing destination), a file through \<^verbatim>\<open>copy2\<close> (which copies into the destination
  when that is a directory).
\<close>

definition copy_item ::
  "string \<Rightarrow> node \<Rightarrow> string \<Rightarrow> string \<Rightarrow> filesystem \<Rightarrow> (exn + unit) \<times> filesystem" where
  "copy_item item n profile_dir profile_path fs =
     (case n of
        Dir sub \<Rightarrow>
          (case fs profile_path of
             None \<Rightarrow> (Inr (), fs(profile_path \<mapsto> Dir [(item, copy_ignoring n)]))
           | Some (File c) \<Rightarrow> (Inl OSError, fs)
           | Some (Dir entries) \<Rightarrow>
               if item \<in> fst ` set entries then (Inl FileExistsError, fs)
               else (Inr (), fs(profile_path \<mapsto> Dir (entries @ [(item, copy_ignoring n)]))))
      | File c \<Rightarrow>
          (case fs profile_path of
             None \<Rightarrow> (Inl FileNotFoundError, fs)
           | Some (File c') \<Rightarrow> (Inl OSError, fs)
           | Some (Dir entries) \<Rightarrow>
               if profile_dir = profile_path then (Inl OSError, fs)
               else
                 (case map_of entries item of
                    Some (Dir inner) \<Rightarrow>
                      (case map_of inner item of
                         Some (Dir d) \<Rightarrow> (Inl OSError, fs)
                       | _ \<Rightarrow>
                           (Inr (),
                            fs(profile_path \<mapsto>
                                 Dir (put_entry entries item
                                        (Dir (put_entry inner item (File c)))))))
                  | _ \<Rightarrow> (Inr (), fs(profile_path \<mapsto> Dir (put_entry entries item (File c)))))))"

fun copy_items ::
  "(string \<times> node) list \<Rightarrow> string \<Rightarrow> string \<Rightarrow> filesystem \<Rightarrow> (exn + unit) \<times> filesystem" where
  "copy_items [] profile_dir profile_path fs = (Inr (), fs)"
| "copy_items (e # rest) profile_dir profile_path fs =
     (if fst e \<in> set lock_names then copy_items rest profile_dir profile_path fs
      else
        (case copy_item (fst e) (snd e) profile_dir profile_path fs of
           (Inl err, fs') \<Rightarrow> (Inl err, fs')
         | (Inr u, fs') \<Rightarrow> copy_items rest profile_dir profile_path fs'))"

text \<open>
  The last statement: \<^verbatim>\<open>open(os.path.join(self._profile_path, 'localStorage.json'), 'w')\<close>
  creates or empties the file, then \<^verbatim>\<open>dumps(self.get_local_storage())\<close> is evaluated and
  written. \<open>storage_json\<close> is that text, or the exception of reading the storage.
\<close>

definition write_local_storage ::
  "exn + string \<Rightarrow> string \<Rightarrow> filesystem \<Rightarrow> (exn + unit) \<times> filesystem" where
  "write_local_storage storage_json profile_path fs =
     (case fs profile_path of
        None \<Rightarrow> (Inl FileNotFoundError, fs)
      | Some (File c) \<Rightarrow> (Inl OSError, fs)
      | Some (Dir entries) \<Rightarrow>
          (case map_of entries ''localStorage.json'' of
             Some (Dir d) \<Rightarrow> (Inl OSError, fs)
           | _ \<Rightarrow>
               (case storage_json of
                  Inl e \<Rightarrow>
                    (Inl e,
                     fs(profile_path \<mapsto> Dir (put_entry entries ''localStorage.json'' (File []))))
                | Inr text \<Rightarrow>
                    (Inr (),
                     fs(profile_path \<mapsto>
                          Dir (put_entry entries ''localStorage.json'' (File text)))))))"

text \<open>The branch \<^verbatim>\<open>if remove_old:\<close>, up to the write of the local storage.\<close>

definition replace_profile ::
  "(string \<Rightarrow> node \<Rightarrow> node option) \<Rightarrow> string \<Rightarrow> string \<Rightarrow> filesystem \<Rightarrow>
   (exn + unit) \<times> filesystem" where
  "replace_profile leaves profile_dir profile_path fs =
     (let tmp_path = profile_path @ ''__tmp'' in
      case copytree fs profile_dir tmp_path of
        Inl e \<Rightarrow> (Inl e, fs)
      | Inr fs1 \<Rightarrow>
          (case (if path_exists fs1 tmp_path
                 then (case listdir fs1 tmp_path of
                         Inl e \<Rightarrow> Inl e
                       | Inr names \<Rightarrow> Inr (length names > 0))
                 else Inr False) of
             Inl e \<Rightarrow> (Inl e, fs1)
           | Inr True \<Rightarrow>
               (let fs2 =
                      (if path_exists fs1 profile_path
                       then (case rmtree leaves fs1 profile_path of
                               (Inl e, fs') \<Rightarrow> fs'
                             | (Inr u, fs') \<Rightarrow> fs')
                       else fs1)
                in case move fs2 tmp_path profile_path of
                     Inl e \<Rightarrow> (Inl e, fs2)
                   | Inr fs3 \<Rightarrow> (Inr (), fs3))
           | Inr False \<Rightarrow>
               (case rmtree leaves fs1 tmp_path of
                  (Inl e, fs') \<Rightarrow> (Inl e, fs')
                | (Inr u, fs') \<Rightarrow>
                    (Inl (WhatsAPIException ''Missing tmp firefox profile.''), fs'))))"

definition save_firefox_profile ::
  "(string \<Rightarrow> node \<Rightarrow> node option) \<Rightarrow> exn + string \<Rightarrow> string \<Rightarrow> string \<Rightarrow> bool \<Rightarrow>
   filesystem \<Rightarrow> (exn + unit) \<times> filesystem" where
  "save_firefox_profile leaves storage_json profile_dir profile_path remove_old fs =
     (case (if remove_old then replace_profile leaves profile_dir profile_path fs
            else (case fs profile_dir of
                    None \<Rightarrow> (Inl FileNotFoundError, fs)
                  | Some (File c) \<Rightarrow> (Inl OSError, fs)
                  | Some (Dir entries) \<Rightarrow> copy_items entries profile_dir profile_path fs)) of
        (Inl e, fs') \<Rightarrow> (Inl e, fs')
      | (Inr u, fs') \<Rightarrow> write_local_storage storage_json profile_path fs')"

text \<open>
  File systems for the examples: a permanent profile with one file, and a live profile
  that holds only lock files, or a preferences file and a lock file.
\<close>

definition old_profile :: node where
  "old_profile = Dir [(''prefs.js'', File ''old'')]"

definition locks_only_fs :: filesystem where
  "locks_only_fs =
     [''/tmp/live'' \<mapsto> Dir [(''parent.lock'', File []), (''lock'', File [])],
      ''/home/me/profile'' \<mapsto> old_profile]"

definition live_fs :: filesystem where
  "live_fs =
     [''/tmp/live'' \<mapsto> Dir [(''prefs.js'', File ''new''), (''lock'', File [])],
      ''/home/me/profile'' \<mapsto> old_profile]"

definition always_removes :: "string \<Rightarrow> node \<Rightarrow> node option" where
  "always_removes p n = None"

subsection \<open>The local storage snapshot: \<^verbatim>\<open>get_local_storage\<close> and \<^verbatim>\<open>set_local_storage\<close>\<close>

text \<open>
  A Python \<^verbatim>\<open>str\<close> is a list of code points. \<open>ascii\<close> reads an ASCII literal as such a
  string.
\<close>

type_synonym ustring = "nat list"

definition ascii :: "string \<Rightarrow> ustring" where
  "ascii s = map of_char s"

text \<open>
  \<^verbatim>\<open>v.encode('unicode-escape').decode('ascii')\<close>, code point by code point: printable
  ASCII stays, a backslash is doubled, tab, newline and carriage return become
  \<^verbatim>\<open>\t\<close>, \<^verbatim>\<open>\n\<close>, \<^verbatim>\<open>\r\<close>, any other code point below \<open>0x100\<close> becomes \<^verbatim>\<open>\xhh\<close>, one below
  \<open>0x10000\<close> becomes \<^verbatim>\<open>\uhhhh\<close>, and a larger one \<^verbatim>\<open>\Uhhhhhhhh\<close> (lower-case hex digits;
  92 is the backslash).
\<close>

definition hexdigit :: "nat \<Rightarrow> nat" where
  "hexdigit n = (if n < 10 then 48 + n else 87 + n)"

definition unicode_escape_char :: "nat \<Rightarrow> ustring" where
  "unicode_escape_char ch =
     (if ch < 0x100 then
        (if 0x20 \<le> ch \<and> ch < 127 then (if ch \<noteq> 92 then [ch] else [92, 92])
         else if ch = 9 then 92 # ascii ''t''
         else if ch = 10 then 92 # ascii ''n''
         else if ch = 13 then 92 # ascii ''r''
         else 92 # ascii ''x'' @ [hexdigit (ch div 16 mod 16), hexdigit (ch mod 16)])
      else if ch < 0x10000 then
        92 # ascii ''u'' @
          [hexdigit (ch div 4096 mod 16), hexdigit (ch div 256 mod 16),
           hexdigit (ch div 16 mod 16), hexdigit (ch mod 16)]
      else
        92 # ascii ''U'' @
          [hexdigit (ch div 268435456 mod 16), hexdigit (ch div 16777216 mod 16),
           hexdigit (ch div 1048576 mod 16), hexdigit (ch div 65536 mod 16),
           hexdigit (ch div 4096 mod 16), hexdigit (ch div 256 mod 16),
           hexdigit (ch div 16 mod 16), hexdigit (ch mod 16)])"

definition unicode_escape :: "ustring \<Rightarrow> ustring" where
  "unicode_escape v = concat (map unicode_escape_char v)"

text \<open>
  The two driver calls of the storage methods: \<^verbatim>\<open>execute_script('return
  window.localStorage;')\<close>, which returns the items of the page's storage, and
  \<^verbatim>\<open>execute_script(script)\<close>, which runs a script in the page.
\<close>

record 'w script_driver =
  return_localStorage :: "'w \<Rightarrow> exn + (ustring \<times> ustring) list"
  execute_script :: "ustring \<Rightarrow> 'w \<Rightarrow> exn + 'w"

definition get_local_storage ::
  "'w script_driver \<Rightarrow> 'w \<Rightarrow> exn + (ustring \<times> ustring) list" where
  "get_local_storage driver w =
     (case return_localStorage driver w of
        Inl e \<Rightarrow> Inl e
      | Inr local_storage \<Rightarrow>
          Inr (map (\<lambda>item. (fst item, unicode_escape (snd item))) local_storage))"

text \<open>
  \<^verbatim>\<open>"window.localStorage.setItem('{}', '{}');".format(k, v)\<close>: key and value are put
  between single quotes (code point 39) as they are.
\<close>

definition setItem_statement :: "ustring \<Rightarrow> ustring \<Rightarrow> ustring" where
  "setItem_statement k v =
     ascii ''window.localStorage.setItem('' @ [39] @ k @ [39] @ ascii '', '' @ [39] @ v @
       [39] @ ascii '');''"

text \<open>The script: \<^verbatim>\<open>''.join([... for k, v in data.items()])\<close>.\<close>

definition storage_script :: "(ustring \<times> ustring) list \<Rightarrow> ustring" where
  "storage_script data = concat (map (\<lambda>item. setItem_statement (fst item) (snd item)) data)"

definition set_local_storage ::
  "'w script_driver \<Rightarrow> (ustring \<times> ustring) list \<Rightarrow> 'w \<Rightarrow> exn + 'w" where
  "set_local_storage driver data w = execute_script driver (storage_script data) w"

subsection \<open>A page that runs \<^verbatim>\<open>setItem\<close> scripts, for the storage examples\<close>

text \<open>
  The page state is the storage, a list of items. The page runs scripts that are a
  sequence of statements \<^verbatim>\<open>window.localStorage.setItem('...', '...');\<close>, reading the
  single-quoted literals as JavaScript does: a character other than quote, backslash and
  line terminator stands for itself; after a backslash, \<^verbatim>\<open>' " \\ b f n r t v\<close> are the
  single-character escapes, \<^verbatim>\<open>xHH\<close> and \<^verbatim>\<open>uHHHH\<close> the hexadecimal ones, \<^verbatim>\<open>0\<close> the
  NUL character, a line terminator a line continuation, and any other character that is
  not a digit stands for itself (so \<^verbatim>\<open>\U\<close> is \<^verbatim>\<open>U\<close>). Octal escapes and the form
  \<^verbatim>\<open>\u{...}\<close> are not covered. The page answers a script that is not of this shape, a
  script with a syntax error among them, with \<^verbatim>\<open>JavascriptException\<close>. Surrogate pairs
  are not combined.
\<close>

definition js_hex_digit :: "nat \<Rightarrow> nat option" where
  "js_hex_digit c =
     (if 48 \<le> c \<and> c \<le> 57 then Some (c - 48)
      else if 97 \<le> c \<and> c \<le> 102 then Some (c - 87)
      else if 65 \<le> c \<and> c \<le> 70 then Some (c - 55)
      else None)"

fun js_hex_value :: "ustring \<Rightarrow> nat option" where
  "js_hex_value [] = Some 0"
| "js_hex_value (c # cs) =
     (case (js_hex_digit c, js_hex_value cs) of
        (Some d, Some r) \<Rightarrow> Some (d * 16 ^ length cs + r)
      | _ \<Rightarrow> None)"

definition single_escape :: "nat \<Rightarrow> nat option" where
  "single_escape e =
     (if e = 39 \<or> e = 34 \<or> e = 92 then Some e
      else if e = of_char CHR ''b'' then Some 8
      else if e = of_char CHR ''f'' then Some 12
      else if e = of_char CHR ''n'' then Some 10
      else if e = of_char CHR ''r'' then Some 13
      else if e = of_char CHR ''t'' then Some 9
      else if e = of_char CHR ''v'' then Some 11
      else None)"

text \<open>
  \<open>escape_sequence s\<close> reads what follows a backslash: the characters the escape
  denotes (none for a line continuation) and the rest of the script.
\<close>

definition hex_escape :: "nat \<Rightarrow> ustring \<Rightarrow> (ustring \<times> ustring) option" where
  "hex_escape n s =
     (if length s < n then None
      else (case js_hex_value (take n s) of
              None \<Rightarrow> None
            | Some ch \<Rightarrow> Some ([ch], drop n s)))"

definition escape_sequence :: "ustring \<Rightarrow> (ustring \<times> ustring) option" where
  "escape_sequence s =
     (case s of
        [] \<Rightarrow> None
      | e # es \<Rightarrow>
          (case single_escape e of
             Some ch \<Rightarrow> Some ([ch], es)
           | None \<Rightarrow>
               if e = of_char CHR ''x'' then hex_escape 2 es
               else if e = of_char CHR ''u'' then hex_escape 4 es
               else if e = 48 then
                 (if es \<noteq> [] \<and> 48 \<le> hd es \<and> hd es \<le> 57 then None else Some ([0], es))
               else if 49 \<le> e \<and> e \<le> 57 then None
               else if e = 10 \<or> e = 0x2028 \<or> e = 0x2029 then Some ([], es)
               else if e = 13 then
                 (if es \<noteq> [] \<and> hd es = 10 then Some ([], tl es) else Some ([], es))
               else Some ([e], es)))"

lemma escape_sequence_shorter:
  "escape_sequence s = Some (chs, rest) \<Longrightarrow> length rest < length s"
  by (cases s)
     (auto simp: escape_sequence_def hex_escape_def
        split: option.splits if_splits)

text \<open>
  \<open>string_literal s\<close> reads a literal's characters from after its opening quote: the
  string it denotes and the rest of the script after the closing quote.
\<close>

function string_literal :: "ustring \<Rightarrow> (ustring \<times> ustring) option" where
  "string_literal s =
     (case s of
        [] \<Rightarrow> None
      | c # cs \<Rightarrow>
          if c = 39 then Some ([], cs)
          else if c = 10 \<or> c = 13 then None
          else if c \<noteq> 92 then
            (case string_literal cs of
               None \<Rightarrow> None
             | Some (v, rest) \<Rightarrow> Some (c # v, rest))
          else
            (case escape_sequence cs of
               None \<Rightarrow> None
             | Some (chs, after_escape) \<Rightarrow>
                 (case string_literal after_escape of
                    None \<Rightarrow> None
                  | Some (v, rest) \<Rightarrow> Some (chs @ v, rest))))"
  by pat_completeness auto
termination
proof (relation "measure length")
  show "wf (measure length)"
    by simp
next
  fix s :: ustring and c cs
  assume "s = c # cs"
  then show "(cs, s) \<in> measure length"
    by simp
next
  fix s :: ustring and c cs x2 chs after_escape
  assume "s = c # cs" and "escape_sequence cs = Some x2" and "(chs, after_escape) = x2"
  then have "length after_escape < length cs"
    by (auto dest: escape_sequence_shorter)
  with \<open>s = c # cs\<close> show "(after_escape, s) \<in> measure length"
    by simp
qed

declare string_literal.simps [simp del]

lemma string_literal_Nil: "string_literal [] = None"
  by (subst string_literal.simps) simp

lemma string_literal_Cons:
  "string_literal (c # cs) =
     (if c = 39 then Some ([], cs)
      else if c = 10 \<or> c = 13 then None
      else if c \<noteq> 92 then
        (case string_literal cs of
           None \<Rightarrow> None
         | Some (v, rest) \<Rightarrow> Some (c # v, rest))
      else
        (case escape_sequence cs of
           None \<Rightarrow> None
         | Some (chs, after_escape) \<Rightarrow>
             (case string_literal after_escape of
                None \<Rightarrow> None
              | Some (v, rest) \<Rightarrow> Some (chs @ v, rest))))"
  by (subst string_literal.simps) simp

lemma string_literal_shorter:
  "string_literal s = Some (v, rest) \<Longrightarrow> length rest < length s"
proof (induction s arbitrary: v rest rule: length_induct)
  case (1 s)
  have ih: "length rest' < length t"
    if "length t < length s" and "string_literal t = Some (v', rest')" for t v' rest'
    using 1(1) that by blast
  show ?case
  proof (cases s)
    case Nil
    with 1(2) show ?thesis by (simp add: string_literal_Nil)
  next
    case (Cons c cs)
    consider "c = 39" | "c = 10 \<or> c = 13" | "c \<noteq> 39" "c \<noteq> 10" "c \<noteq> 13" "c \<noteq> 92"
      | "c = 92"
      by blast
    then show ?thesis
    proof cases
      case 1
      with \<open>string_literal s = Some (v, rest)\<close> Cons show ?thesis
        by (simp add: string_literal_Cons)
    next
      case 2
      with \<open>string_literal s = Some (v, rest)\<close> Cons show ?thesis
        by (auto simp: string_literal_Cons)
    next
      case 3
      with \<open>string_literal s = Some (v, rest)\<close> Cons
      obtain v' where "string_literal cs = Some (v', rest)"
        by (auto simp: string_literal_Cons split: option.splits)
      then have "length rest < length cs"
        using ih [of cs v' rest] Cons by simp
      with Cons show ?thesis by simp
    next
      case 4
      with \<open>string_literal s = Some (v, rest)\<close> Cons
      obtain chs after_escape v' where
        e: "escape_sequence cs = Some (chs, after_escape)" and
        l: "string_literal after_escape = Some (v', rest)"
        by (auto simp: string_literal_Cons split: option.splits)
      have shorter: "length after_escape < length cs"
        using e by (rule escape_sequence_shorter)
      then have "length rest < length after_escape"
        using ih [of after_escape v' rest] l Cons by simp
      with shorter Cons show ?thesis by simp
    qed
  qed
qed

text \<open>The 29 characters every statement of such a script starts with.\<close>

definition statement_prefix :: ustring where
  "statement_prefix = ascii ''window.localStorage.setItem('' @ [39]"

text \<open>The calls of a script: the key and value of each \<^verbatim>\<open>setItem\<close> statement, in order.\<close>

function setItem_calls :: "ustring \<Rightarrow> (ustring \<times> ustring) list option" where
  "setItem_calls script =
     (if script = [] then Some []
      else if take 29 script \<noteq> ascii ''window.localStorage.setItem('' @ [39] then None
      else
        (case string_literal (drop 29 script) of
           None \<Rightarrow> None
         | Some (k, after_key) \<Rightarrow>
             if take 3 after_key \<noteq> ascii '', '' @ [39] then None
             else
               (case string_literal (drop 3 after_key) of
                  None \<Rightarrow> None
                | Some (v, after_value) \<Rightarrow>
                    if take 2 after_value \<noteq> ascii '');'' then None
                    else
                      (case setItem_calls (drop 2 after_value) of
                         None \<Rightarrow> None
                       | Some calls \<Rightarrow> Some ((k, v) # calls)))))"
  by pat_completeness auto
termination
proof (relation "measure length")
  show "wf (measure length)"
    by simp
next
  fix script :: ustring and x2 k after_key x2a v after_value
  assume "script \<noteq> []"
    and "string_literal (drop 29 script) = Some x2" and "(k, after_key) = x2"
    and "string_literal (drop 3 after_key) = Some x2a" and "(v, after_value) = x2a"
  then have "length after_key < length (drop 29 script)"
    and "length after_value < length (drop 3 after_key)"
    by (auto dest: string_literal_shorter)
  then show "(drop 2 after_value, script) \<in> measure length"
    by simp
qed

declare setItem_calls.simps [simp del]

definition example_page_run :: "ustring \<Rightarrow> (ustring \<times> ustring) list \<Rightarrow> exn + (ustring \<times> ustring) list" where
  "example_page_run script storage =
     (case setItem_calls script of
        None \<Rightarrow> Inl JavascriptException
      | Some calls \<Rightarrow>
          Inr (foldl (\<lambda>st item.
                 if fst item \<in> fst ` set st
                 then map (\<lambda>old. if fst old = fst item then item else old) st
                 else st @ [item]) storage calls))"

definition example_script_driver :: "(ustring \<times> ustring) list script_driver" where
  "example_script_driver =
     \<lparr>return_localStorage = (\<lambda>storage. Inr storage), execute_script = example_page_run\<rparr>"

subsection \<open>A concrete bridge for the examples\<close>

text \<open>
  A bridge whose page holds two chats. Loading history adds one to the page state. The
  typed message of the examples is the raw message itself, ordered by its raw timestamp.
  The clock of the examples reads 2026-11-04 00:00:00 UTC.
\<close>

definition example_now :: int where
  "example_now = 1793750400 * 1000000"

definition old_msg :: "string raw_message" where
  "old_msg = \<lparr>raw_timestamp = 1793750400 - 20 * 86400, raw_payload = ''three weeks ago''\<rparr>"

definition later_msg :: "string raw_message" where
  "later_msg = \<lparr>raw_timestamp = 1793750400 - 100, raw_payload = ''second''\<rparr>"

definition earlier_msg :: "string raw_message" where
  "earlier_msg = \<lparr>raw_timestamp = 1793750400 - 200, raw_payload = ''first''\<rparr>"

definition example_groups :: "(string, string) raw_message_group list" where
  "example_groups =
     [\<lparr>raw_chat = ''alice'', raw_messages = [later_msg, old_msg, earlier_msg]\<rparr>,
      \<lparr>raw_chat = ''bob'', raw_messages = [old_msg]\<rparr>]"

definition example_bridge :: "(nat, string, string) sync_bridge" where
  "example_bridge =
     \<lparr>getUnreadMessages = (\<lambda>include_me include_notifications w. Inr example_groups),
      getUnreadMessagesUsingChatId =
        (\<lambda>c include_me include_notifications w.
           Inr (filter (\<lambda>g. raw_chat g = c) example_groups)),
      loadEarlierMessagesTillDateAllChats = (\<lambda>date w. Inr (Suc w)),
      getAllLatestMessages = (\<lambda>include_me include_notifications w. Inr example_groups)\<rparr>"

definition example_objects ::
  "(string, string, string, string raw_message, int) objects" where
  "example_objects =
     \<lparr>factory_chat = raw_chat, factory_message = (\<lambda>m. m), timestamp = raw_timestamp\<rparr>"

section \<open>Properties\<close>

lemma append_groups_map: "append_groups body gs acc = acc @ map body gs"
  by (induction gs arbitrary: acc) simp_all

subsection \<open>Message synchronisation\<close>

lemma get_unread_groups:
  "raw_unread wapi include_me include_notifications specific_chat w = Inr raws \<Longrightarrow>
   get_unread wapi ob now include_me include_notifications filter_week specific_chat w =
     Inr (map (unread_group ob filter_week (seven_days_ago now)) raws)"
  by (simp add: get_unread_def append_groups_map)

lemma get_all_messages_until_date_groups:
  "loadEarlierMessagesTillDateAllChats wapi (effective_date date (seven_days_ago now)) w = Inr w' \<Longrightarrow>
   getAllLatestMessages wapi include_me include_notifications w' = Inr raws \<Longrightarrow>
   get_all_messages_until_date wapi ob now date include_me include_notifications w =
     Inr (map (until_group ob (effective_date date (seven_days_ago now))) raws, w')"
  by (simp add: get_all_messages_until_date_def append_groups_map)

lemma example_seven_days_ago: "seven_days_ago example_now = 1793750400 - 7 * 86400"
  by (simp add: seven_days_ago_def example_now_def timedelta_days_def int_timestamp_def)

lemma example_raw_unread:
  "raw_unread example_bridge False False None 0 = Inr example_groups"
  by (simp add: raw_unread_def example_bridge_def)

lemma example_load:
  "loadEarlierMessagesTillDateAllChats example_bridge d 0 = Inr (Suc 0)"
  by (simp add: example_bridge_def)

lemma example_latest:
  "getAllLatestMessages example_bridge True False (Suc 0) = Inr example_groups"
  by (simp add: example_bridge_def)



text \<open>
  C7. Both entry points emit one \<^verbatim>\<open>MessageGroup\<close> per raw group of the bridge's answer, in
  the bridge's order, whatever the filter leaves of its messages: the chats of the output
  are the classified chats of the input, position by position.
\<close>

theorem every_chat_is_emitted_in_order:
  fixes wapi :: "('w, 'c, 'p) sync_bridge"
    and ob :: "('c, 'p, 'chat, 'msg, 'k::linorder) objects"
  shows "(raw_unread wapi include_me include_notifications specific_chat w = Inr raws \<longrightarrow>
           (\<exists>groups.
              get_unread wapi ob now include_me include_notifications filter_week
                specific_chat w = Inr groups \<and>
              map chat groups = map (factory_chat ob) raws \<and>
              length groups = length raws)) \<and>
         (loadEarlierMessagesTillDateAllChats wapi (effective_date date (seven_days_ago now)) w
            = Inr w' \<and>
          getAllLatestMessages wapi include_me' include_notifications' w' = Inr raws' \<longrightarrow>
           (\<exists>groups.
              get_all_messages_until_date wapi ob now date include_me' include_notifications' w
                = Inr (groups, w') \<and>
              map chat groups = map (factory_chat ob) raws' \<and>
              length groups = length raws'))"
proof (intro conjI impI)
  assume "raw_unread wapi include_me include_notifications specific_chat w = Inr raws"
  then have "get_unread wapi ob now include_me include_notifications filter_week
               specific_chat w = Inr (map (unread_group ob filter_week (seven_days_ago now)) raws)"
    by (rule get_unread_groups)
  moreover have "map chat (map (unread_group ob filter_week (seven_days_ago now)) raws) =
                   map (factory_chat ob) raws"
    by (simp add: unread_group_def)
  ultimately show "\<exists>groups.
              get_unread wapi ob now include_me include_notifications filter_week
                specific_chat w = Inr groups \<and>
              map chat groups = map (factory_chat ob) raws \<and>
              length groups = length raws"
    by simp
next
  assume "loadEarlierMessagesTillDateAllChats wapi (effective_date date (seven_days_ago now)) w
            = Inr w' \<and>
          getAllLatestMessages wapi include_me' include_notifications' w' = Inr raws'"
  then have "get_all_messages_until_date wapi ob now date include_me' include_notifications' w =
               Inr (map (until_group ob (effective_date date (seven_days_ago now))) raws', w')"
    by (simp add: get_all_messages_until_date_groups)
  moreover have "map chat (map (until_group ob (effective_date date (seven_days_ago now))) raws')
                   = map (factory_chat ob) raws'"
    by (simp add: until_group_def)
  ultimately show "\<exists>groups.
              get_all_messages_until_date wapi ob now date include_me' include_notifications' w
                = Inr (groups, w') \<and>
              map chat groups = map (factory_chat ob) raws' \<and>
              length groups = length raws'"
    by simp
qed

theorem every_chat_is_emitted_in_order_witness:
  "(\<exists>groups.
      get_unread example_bridge example_objects example_now False False True None 0
        = Inr groups \<and>
      map chat groups = [''alice'', ''bob''] \<and> map messages groups ! 1 = []) \<and>
   (\<exists>groups.
      get_all_messages_until_date example_bridge example_objects example_now None True False 0
        = Inr (groups, Suc 0) \<and>
      map chat groups = [''alice'', ''bob''] \<and> map messages groups ! 1 = [])"
proof -
  have chats: "map (factory_chat example_objects) example_groups = [''alice'', ''bob'']"
    by (simp add: example_objects_def example_groups_def)
  have u: "get_unread example_bridge example_objects example_now False False True None 0 =
             Inr (map (unread_group example_objects True (seven_days_ago example_now))
                    example_groups)"
    using example_raw_unread by (rule get_unread_groups)
  have d: "get_all_messages_until_date example_bridge example_objects example_now None True
             False 0 =
             Inr (map (until_group example_objects
                        (effective_date None (seven_days_ago example_now))) example_groups,
                  Suc 0)"
    using example_load example_latest by (rule get_all_messages_until_date_groups)
  have bob_u: "map messages (map (unread_group example_objects True (seven_days_ago example_now))
                 example_groups) ! 1 = []"
    by (simp add: example_seven_days_ago example_groups_def unread_group_def old_msg_def
        sorted_key_def)
  have bob_d: "map messages (map (until_group example_objects
                   (effective_date None (seven_days_ago example_now))) example_groups) ! 1 = []"
    by (simp add: example_seven_days_ago example_groups_def until_group_def old_msg_def
        sorted_key_def effective_date_def)
  from every_chat_is_emitted_in_order [of example_bridge False False None 0 example_groups
      example_objects example_now True None "Suc 0" True False example_groups]
    example_raw_unread example_load example_latest chats u d bob_u bob_d
  show ?thesis by simp
qed


lemma sorted_key_sorted: "sorted (map f (sorted_key f xs))"
  by (simp add: sorted_key_def)

lemma sorted_key_stable:
  "filter (\<lambda>y. f y = k) (sorted_key f xs) = filter (\<lambda>y. f y = k) xs"
  by (simp add: sorted_key_def sort_key_stable)

text \<open>
  On the paths that sort (\<^verbatim>\<open>get_unread\<close> with \<^verbatim>\<open>filter_week\<close>, and
  \<^verbatim>\<open>get_all_messages_until_date\<close>) every group's messages are in non-decreasing
  \<^verbatim>\<open>timestamp\<close> order, and messages of equal timestamp keep their arrival order.
\<close>

lemma sorting_paths_sorted:
  fixes ob :: "('c, 'p, 'chat, 'msg, 'k::linorder) objects"
  shows "sorted (map (timestamp ob) (messages (unread_group ob True sda r)))"
    and "sorted (map (timestamp ob) (messages (until_group ob date r)))"
    and "filter (\<lambda>m. timestamp ob m = k) (messages (unread_group ob True sda r)) =
         filter (\<lambda>m. timestamp ob m = k)
           (map (factory_message ob) (filter (\<lambda>msg. raw_timestamp msg \<ge> sda) (raw_messages r)))"
    and "filter (\<lambda>m. timestamp ob m = k) (messages (until_group ob date r)) =
         filter (\<lambda>m. timestamp ob m = k)
           (map (factory_message ob) (filter (\<lambda>msg. raw_timestamp msg \<ge> date) (raw_messages r)))"
  by (simp_all add: unread_group_def until_group_def sorted_key_sorted sorted_key_stable)

text \<open>
  C3. With \<^verbatim>\<open>filter_week=False\<close> the loop of \<^verbatim>\<open>get_unread\<close> takes the branch
  \<^verbatim>\<open>list(map(...))\<close>, which classifies the raw messages and does not sort them: the group
  keeps the bridge's order. For the example bridge, whose first chat holds a message
  followed by an earlier one, the emitted group has them in that order, which is not
  non-decreasing by timestamp.
\<close>

theorem get_unread_without_filter_is_unsorted:
  "get_unread example_bridge example_objects example_now False False False None 0 =
     Inr [\<lparr>chat = ''alice'', messages = [later_msg, old_msg, earlier_msg]\<rparr>,
          \<lparr>chat = ''bob'', messages = [old_msg]\<rparr>] \<and>
   \<not> sorted (map (timestamp example_objects) [later_msg, old_msg, earlier_msg])"
proof -
  have "get_unread example_bridge example_objects example_now False False False None 0 =
          Inr (map (unread_group example_objects False (seven_days_ago example_now))
                 example_groups)"
    using example_raw_unread by (rule get_unread_groups)
  moreover have "map (unread_group example_objects False (seven_days_ago example_now))
                   example_groups =
                 [\<lparr>chat = ''alice'', messages = [later_msg, old_msg, earlier_msg]\<rparr>,
                  \<lparr>chat = ''bob'', messages = [old_msg]\<rparr>]"
    by (simp add: unread_group_def example_groups_def example_objects_def)
  moreover have "\<not> sorted (map (timestamp example_objects) [later_msg, old_msg, earlier_msg])"
    by (simp add: example_objects_def later_msg_def old_msg_def)
  ultimately show ?thesis by simp
qed


subsection \<open>Lookups by id\<close>

text \<open>
  C10. When the bridge answers a message lookup with a false value (\<^verbatim>\<open>False\<close> or
  \<^verbatim>\<open>None\<close>), \<^verbatim>\<open>get_message_by_id\<close> returns that value and raises nothing. When the
  bridge answers a chat lookup with a false value, \<^verbatim>\<open>get_chat_from_id\<close> raises
  \<^verbatim>\<open>ChatNotFoundError\<close>; when it answers a contact lookup with \<^verbatim>\<open>None\<close>,
  \<^verbatim>\<open>get_contact_from_id\<close> raises \<^verbatim>\<open>ContactNotFoundError\<close>.
\<close>

theorem unknown_message_is_returned_unknown_chat_and_contact_raise:
  fixes wapi :: "('w, 'r) lookup_bridge"
  shows "(getMessageById wapi message_id w = Inr v \<and> \<not> truthy v \<longrightarrow>
            get_message_by_id wapi factory_message' message_id w = Inr (Untyped v)) \<and>
         (getChatById wapi chat_id w = Inr v' \<and> \<not> truthy v' \<longrightarrow>
            get_chat_from_id wapi factory_chat' chat_id w =
              Inl (ChatNotFoundError (''Chat '' @ chat_id @ '' not found''))) \<and>
         (getContact wapi contact_id w = Inr PyNone \<longrightarrow>
            get_contact_from_id wapi Contact contact_id w =
              Inl (ContactNotFoundError (''Contact '' @ contact_id @ '' not found'')))"
  by (simp add: get_message_by_id_def get_chat_from_id_def get_contact_from_id_def)

theorem unknown_message_is_returned_unknown_chat_and_contact_raise_witness:
  "get_message_by_id example_lookup_bridge (\<lambda>v. v) ''unknown'' () = Inr (Untyped (PyBool False)) \<and>
   get_chat_from_id example_lookup_bridge (\<lambda>v. v) ''unknown'' () =
     Inl (ChatNotFoundError ''Chat unknown not found'') \<and>
   get_contact_from_id example_lookup_bridge (\<lambda>v. v) ''unknown'' () =
     Inl (ContactNotFoundError ''Contact unknown not found'')"
proof -
  have m: "getMessageById example_lookup_bridge ''unknown'' () = Inr (PyBool False) \<and>
           \<not> truthy (PyBool False :: string bridge_value)"
    by (simp add: example_lookup_bridge_def)
  have c: "getChatById example_lookup_bridge ''unknown'' () = Inr (PyBool False) \<and>
           \<not> truthy (PyBool False :: string bridge_value)"
    by (simp add: example_lookup_bridge_def)
  have k: "getContact example_lookup_bridge ''unknown'' () = Inr PyNone"
    by (simp add: example_lookup_bridge_def)
  from m c k
    unknown_message_is_returned_unknown_chat_and_contact_raise
      [of example_lookup_bridge "''unknown''" "()" "PyBool False" "\<lambda>v. v" "''unknown''"
          "PyBool False" "\<lambda>v. v" "''unknown''" "\<lambda>v. v"]
  show ?thesis by simp
qed

subsection \<open>The status probe\<close>

text \<open>
  C5, as stated, fails: a probe's exception other than \<^verbatim>\<open>NoSuchElementException\<close> is not
  caught. With the browser window closed, the first probe raises
  \<^verbatim>\<open>NoSuchWindowException\<close> and so does \<^verbatim>\<open>get_status\<close>.
\<close>

theorem get_status_propagates_other_exceptions:
  "get_status example_selenium (Some WindowClosed) = Inl NoSuchWindowException"
  by (simp add: get_status_def example_selenium_def)

text \<open>
  C5, amended. \<^verbatim>\<open>get_status\<close> returns \<^verbatim>\<open>NotConnected\<close> when the driver or its session id
  is absent. Otherwise it returns \<^verbatim>\<open>LoggedIn\<close> when the main-page probe finds an element;
  when that probe raises \<^verbatim>\<open>NoSuchElementException\<close> it returns \<^verbatim>\<open>NotLoggedIn\<close> if the QR
  probe finds an element and \<^verbatim>\<open>Unknown\<close> if the QR probe raises
  \<^verbatim>\<open>NoSuchElementException\<close>. Only \<^verbatim>\<open>NoSuchElementException\<close> counts as "marker absent":
  any other exception of a probe that is reached is raised by \<^verbatim>\<open>get_status\<close>. The method
  never raises \<^verbatim>\<open>NoSuchElementException\<close> and never returns \<^verbatim>\<open>NoDriver\<close>.
\<close>

theorem get_status_swallows_only_no_such_element:
  fixes sel :: "('w, 'e) selenium"
  shows "(driver = None \<or> (\<exists>d. driver = Some d \<and> session_id sel d = None) \<longrightarrow>
            get_status sel driver = Inr NotConnected) \<and>
         (\<forall>d. driver = Some d \<and> session_id sel d \<noteq> None \<longrightarrow>
            (\<forall>main. find_element_by_css_selector sel selector_mainPage d = Inr main \<longrightarrow>
               get_status sel driver = Inr LoggedIn) \<and>
            (find_element_by_css_selector sel selector_mainPage d = Inl NoSuchElementException \<longrightarrow>
               (\<forall>qr. find_element_by_css_selector sel selector_qrCode d = Inr qr \<longrightarrow>
                  get_status sel driver = Inr NotLoggedIn) \<and>
               (find_element_by_css_selector sel selector_qrCode d = Inl NoSuchElementException \<longrightarrow>
                  get_status sel driver = Inr Unknown) \<and>
               (\<forall>e. find_element_by_css_selector sel selector_qrCode d = Inl e \<and>
                    e \<noteq> NoSuchElementException \<longrightarrow>
                  get_status sel driver = Inl e)) \<and>
            (\<forall>e. find_element_by_css_selector sel selector_mainPage d = Inl e \<and>
                 e \<noteq> NoSuchElementException \<longrightarrow>
               get_status sel driver = Inl e)) \<and>
         get_status sel driver \<noteq> Inl NoSuchElementException \<and>
         get_status sel driver \<noteq> Inr NoDriver"
proof (intro conjI)
  show "driver = None \<or> (\<exists>d. driver = Some d \<and> session_id sel d = None) \<longrightarrow>
          get_status sel driver = Inr NotConnected"
    by (auto simp: get_status_def)
  show "\<forall>d. driver = Some d \<and> session_id sel d \<noteq> None \<longrightarrow>
            (\<forall>main. find_element_by_css_selector sel selector_mainPage d = Inr main \<longrightarrow>
               get_status sel driver = Inr LoggedIn) \<and>
            (find_element_by_css_selector sel selector_mainPage d = Inl NoSuchElementException \<longrightarrow>
               (\<forall>qr. find_element_by_css_selector sel selector_qrCode d = Inr qr \<longrightarrow>
                  get_status sel driver = Inr NotLoggedIn) \<and>
               (find_element_by_css_selector sel selector_qrCode d = Inl NoSuchElementException \<longrightarrow>
                  get_status sel driver = Inr Unknown) \<and>
               (\<forall>e. find_element_by_css_selector sel selector_qrCode d = Inl e \<and>
                    e \<noteq> NoSuchElementException \<longrightarrow>
                  get_status sel driver = Inl e)) \<and>
            (\<forall>e. find_element_by_css_selector sel selector_mainPage d = Inl e \<and>
                 e \<noteq> NoSuchElementException \<longrightarrow>
               get_status sel driver = Inl e)"
    by (auto simp: get_status_def)
  show "get_status sel driver \<noteq> Inl NoSuchElementException"
    by (auto simp: get_status_def split: option.splits sum.splits)
  show "get_status sel driver \<noteq> Inr NoDriver"
    by (auto simp: get_status_def split: option.splits sum.splits)
qed

theorem get_status_swallows_only_no_such_element_witness:
  "get_status example_selenium None = Inr NotConnected \<and>
   get_status example_selenium (Some MainPage) = Inr LoggedIn \<and>
   get_status example_selenium (Some QrPage) = Inr NotLoggedIn"
proof -
  have sid: "session_id example_selenium d \<noteq> None" for d
    by (simp add: example_selenium_def)
  have main: "find_element_by_css_selector example_selenium selector_mainPage MainPage =
                Inr ''main-element''"
    by (simp add: example_selenium_def)
  have nomain: "find_element_by_css_selector example_selenium selector_mainPage QrPage =
                  Inl NoSuchElementException"
    by (simp add: example_selenium_def selector_mainPage_def selector_qrCode_def)
  have qr: "find_element_by_css_selector example_selenium selector_qrCode QrPage =
              Inr ''qr-element''"
    by (simp add: example_selenium_def)
  have a: "get_status example_selenium None = Inr NotConnected"
    using get_status_swallows_only_no_such_element [of None example_selenium] by simp
  have b: "get_status example_selenium (Some MainPage) = Inr LoggedIn"
    using get_status_swallows_only_no_such_element [of "Some MainPage" example_selenium]
      sid main by simp
  have c: "get_status example_selenium (Some QrPage) = Inr NotLoggedIn"
    using get_status_swallows_only_no_such_element [of "Some QrPage" example_selenium]
      sid nomain qr by simp
  from a b c show ?thesis by simp
qed

subsection \<open>The QR code after login\<close>

text \<open>
  C9, as stated, fails: once the main page is shown there is no QR element, and both
  \<^verbatim>\<open>get_qr\<close> and \<^verbatim>\<open>reload_qr\<close> raise \<^verbatim>\<open>NoSuchElementException\<close>.
\<close>

theorem get_qr_after_login_raises:
  "get_qr example_selenium example_os ''API'' None MainPage = Inl NoSuchElementException \<and>
   reload_qr example_selenium MainPage = Inl NoSuchElementException"
  by (simp add: get_qr_def reload_qr_def example_selenium_def selector_mainPage_def
      selector_qrCode_def)

text \<open>
  C9, amended. In every state where the lookup of the QR element raises
  \<^verbatim>\<open>NoSuchElementException\<close> (the QR code is no longer displayed), \<^verbatim>\<open>reload_qr\<close> raises
  \<^verbatim>\<open>NoSuchElementException\<close>, and so does \<^verbatim>\<open>get_qr\<close> whenever the page source can be
  read (if reading it raises, \<^verbatim>\<open>get_qr\<close> raises that exception): neither returns a value.
\<close>

theorem qr_operations_raise_without_qr_element:
  fixes sel :: "('w, 'e) selenium"
  assumes "find_element_by_css_selector sel selector_qrCode d = Inl NoSuchElementException"
  shows "reload_qr sel d = Inl NoSuchElementException \<and>
         get_qr sel os username filename d =
           Inl (case page_source sel d of Inl e \<Rightarrow> e | Inr src \<Rightarrow> NoSuchElementException)"
  using assms by (simp add: reload_qr_def get_qr_def split: sum.splits)

theorem qr_operations_raise_without_qr_element_witness:
  "find_element_by_css_selector example_selenium selector_qrCode MainPage =
     Inl NoSuchElementException \<and>
   reload_qr example_selenium MainPage = Inl NoSuchElementException \<and>
   get_qr example_selenium example_os ''API'' (Some ''qr.png'') MainPage =
     Inl NoSuchElementException"
proof -
  have h: "find_element_by_css_selector example_selenium selector_qrCode MainPage =
             Inl NoSuchElementException"
    by (simp add: example_selenium_def selector_mainPage_def selector_qrCode_def)
  have src: "page_source example_selenium MainPage = Inr ''<div class=app two>...</div>''"
    by (simp add: example_selenium_def)
  from qr_operations_raise_without_qr_element [OF h, of example_os "''API''" "Some ''qr.png''"]
    h src
  show ?thesis by simp
qed


subsection \<open>Media download and decryption\<close>

lemma byte_range_window:
  "hi < length d \<Longrightarrow> lo \<le> Suc hi \<Longrightarrow>
   byte_range d lo hi = take (Suc hi - lo) (drop lo d)"
  unfolding byte_range_def by (rule nth_equalityI) (auto simp del: upt_Suc)

lemma strip_as_rev: "rev (drop n (rev xs)) = slice_until_last n xs"
  by (simp add: slice_until_last_def rev_drop)

lemma xor_bytes_cancel:
  "length a = length b \<Longrightarrow> xor_bytes (xor_bytes a b) b = a"
  unfolding xor_bytes_def
  by (induction a b rule: list_induct2) (simp_all add: xor.assoc)

lemma length_xor_bytes: "length (xor_bytes a b) = min (length a) (length b)"
  by (simp add: xor_bytes_def)

text \<open>
  CBC decryption undoes CBC encryption on whole blocks, for a block decryption that
  undoes the block encryption.
\<close>

lemma cbc_roundtrip:
  assumes inv: "\<And>b. length b = 16 \<Longrightarrow> length (E b) = 16 \<and> D (E b) = b"
  shows "length prev = 16 \<Longrightarrow> length p = 16 * n \<Longrightarrow>
         cbc_decrypt D prev (cbc_encrypt E prev p) = p \<and>
         length (cbc_encrypt E prev p) = length p"
proof (induction n arbitrary: prev p)
  case 0
  then show ?case by (simp add: cbc_encrypt.simps cbc_decrypt.simps)
next
  case (Suc n)
  define b where "b = xor_bytes (take 16 p) prev"
  define c where "c = E b"
  have lb: "length b = 16"
    using Suc.prems by (simp add: b_def length_xor_bytes)
  have lc: "length c = 16" and dc: "D c = b"
    using inv [OF lb] by (simp_all add: c_def)
  have rest: "length (drop 16 p) = 16 * n"
    using Suc.prems by simp
  have ih: "cbc_decrypt D c (cbc_encrypt E c (drop 16 p)) = drop 16 p"
    and ihl: "length (cbc_encrypt E c (drop 16 p)) = length (drop 16 p)"
    using Suc.IH [OF lc rest] by simp_all
  have ne: "p \<noteq> []"
    using Suc.prems by auto
  have enc: "cbc_encrypt E prev p = c @ cbc_encrypt E c (drop 16 p)"
    using ne by (subst cbc_encrypt.simps) (simp add: b_def c_def)
  have first: "xor_bytes (D c) prev = take 16 p"
    using Suc.prems by (simp add: dc b_def xor_bytes_cancel)
  have "cbc_decrypt D prev (c @ cbc_encrypt E c (drop 16 p)) =
          xor_bytes (D c) prev @ cbc_decrypt D c (cbc_encrypt E c (drop 16 p))"
  proof -
    have "c \<noteq> []" using lc by auto
    then show ?thesis
      using lc by (subst cbc_decrypt.simps) simp
  qed
  then have "cbc_decrypt D prev (cbc_encrypt E prev p) = take 16 p @ drop 16 p"
    by (simp add: enc first ih)
  moreover have "length (cbc_encrypt E prev p) = length p"
    using Suc.prems by (simp add: enc lc ihl)
  ultimately show ?case by simp
qed

text \<open>What \<^verbatim>\<open>download_media\<close> computes once the download and the decodings succeed.\<close>

lemma download_media_run:
  fixes lib :: "'w media_calls"
  assumes "downloadFile lib (client_url m) w = Inr b64"
    and "b64decode lib b64 = Inr blob"
    and "b64decode lib (media_key m) = Inr key"
    and "crypt_keys m (type m) = Some hex"
    and "unhexlify lib hex = Inr info"
  shows "download_media lib m False w =
           (case deriveSecrets lib key info 112 of
              Inl e \<Rightarrow> Inl e
            | Inr d \<Rightarrow>
                Cipher_AES_CBC_decrypt (aes_decrypt_block lib) (take 32 (drop 16 d)) (take 16 d)
                  (slice_until_last 10 blob))"
  using assms
  by (simp add: download_media_def download_and_decrypt_def download_file_def
      ByteUtil_split_def split: option.splits sum.splits)

lemma example_media_download:
  "downloadFile example_media_calls (client_url (example_media_message url)) () =
     (if url = ''/short'' then Inr ''AAEC''
      else if url = ''/odd'' then Inr ''AAECAwQFBgcICQoLDA==''
      else if url = ''/hello'' then Inr ''WHV8fH8bGxsbGxsbGxsbG/Dx8vP09fb3+Pk=''
      else if url = ''/image''
        then Inr ''WHV8fH88MEd4cWRjUWBgMVh0fn97OTZAcHhuaF1tbj7w8fLz9PX29/j5''
      else Inl JavascriptException)"
  by (simp add: example_media_calls_def example_media_message_def)

lemma example_media_key:
  "b64decode example_media_calls (media_key (example_media_message url)) =
     Inr (replicate 32 0)"
  unfolding example_media_calls_def example_media_message_def by code_simp

lemma example_media_info:
  "crypt_keys (example_media_message url) (type (example_media_message url)) =
     Some ''576861747341707020496d616765204b657973''"
  "unhexlify example_media_calls ''576861747341707020496d616765204b657973'' =
     Inr (map (\<lambda>c. of_nat (of_char c)) ''WhatsApp Image Keys'')"
  unfolding example_media_calls_def example_media_message_def by code_simp+

lemma example_media_derive:
  "deriveSecrets example_media_calls key info 112 = Inr (map of_nat [0..<112])"
  by (simp add: example_media_calls_def standin_deriveSecrets_def)

lemma example_blobs:
  "b64decode example_media_calls ''AAEC'' = Inr [0, 1, 2]"
  "b64decode example_media_calls ''AAECAwQFBgcICQoLDA=='' =
     Inr [0, 1, 2, 3, 4, 5, 6, 7, 8, 9, 10, 11, 12]"
  unfolding example_media_calls_def by code_simp+

lemma example_fixture_blobs:
  "b64decode example_media_calls ''WHV8fH8bGxsbGxsbGxsbG/Dx8vP09fb3+Pk='' =
     Inr ([0x58, 0x75, 0x7c, 0x7c, 0x7f, 0x1b, 0x1b, 0x1b,
           0x1b, 0x1b, 0x1b, 0x1b, 0x1b, 0x1b, 0x1b, 0x1b] @ hello_tag)"
  "b64decode example_media_calls
     ''WHV8fH88MEd4cWRjUWBgMVh0fn97OTZAcHhuaF1tbj7w8fLz9PX29/j5'' =
     Inr ([0x58, 0x75, 0x7c, 0x7c, 0x7f, 0x3c, 0x30, 0x47,
           0x78, 0x71, 0x64, 0x63, 0x51, 0x60, 0x60, 0x31,
           0x58, 0x74, 0x7e, 0x7f, 0x7b, 0x39, 0x36, 0x40,
           0x70, 0x78, 0x6e, 0x68, 0x5d, 0x6d, 0x6e, 0x3e] @ hello_tag)"
  unfolding example_media_calls_def by code_simp+

lemma standin_block_inverse:
  "16 \<le> length k \<Longrightarrow> length b = 16 \<Longrightarrow>
   length (standin_block k b) = 16 \<and> standin_block k (standin_block k b) = b"
  by (simp add: standin_block_def length_xor_bytes xor_bytes_cancel)

lemma example_key_iv:
  "byte_range (map of_nat [0..<112]) 16 47 = example_key"
  "byte_range (map of_nat [0..<112]) 0 15 = example_iv"
  unfolding example_key_def example_iv_def
  by (simp_all add: byte_range_window drop_map take_map del: upt_Suc)

lemma example_encryption:
  "cbc_encrypt (standin_block example_key) example_iv
     (short_plaintext @ pkcs7_padding short_plaintext) =
     [0x58, 0x75, 0x7c, 0x7c, 0x7f, 0x1b, 0x1b, 0x1b,
      0x1b, 0x1b, 0x1b, 0x1b, 0x1b, 0x1b, 0x1b, 0x1b]"
  "cbc_encrypt (standin_block example_key) example_iv
     (hello_plaintext @ pkcs7_padding hello_plaintext) =
     [0x58, 0x75, 0x7c, 0x7c, 0x7f, 0x3c, 0x30, 0x47,
      0x78, 0x71, 0x64, 0x63, 0x51, 0x60, 0x60, 0x31,
      0x58, 0x74, 0x7e, 0x7f, 0x7b, 0x39, 0x36, 0x40,
      0x70, 0x78, 0x6e, 0x68, 0x5d, 0x6d, 0x6e, 0x3e]"
  by code_simp+

lemma example_paddings:
  "pkcs7_padding short_plaintext = replicate 11 11"
  "pkcs7_padding hello_plaintext = replicate 16 16"
  by (simp_all add: pkcs7_padding_def short_plaintext_def hello_plaintext_def)

text \<open>A padded plaintext is a positive number of whole blocks; the padding is never empty.\<close>

lemma pkcs7_padded_length:
  "length (plaintext @ pkcs7_padding plaintext) = 16 * Suc (length plaintext div 16)"
proof -
  have "length plaintext mod 16 < 16"
    by simp
  moreover have "length plaintext = 16 * (length plaintext div 16) + length plaintext mod 16"
    by simp
  ultimately have "length plaintext + (16 - length plaintext mod 16) =
                     16 * (length plaintext div 16) + 16"
    by linarith
  then show ?thesis
    by (simp add: pkcs7_padding_def)
qed

lemma pkcs7_padding_not_empty: "pkcs7_padding plaintext \<noteq> []"
proof -
  have "length plaintext mod 16 < 16"
    by simp
  then have "0 < 16 - length plaintext mod 16"
    by simp
  then show ?thesis
    unfolding pkcs7_padding_def by (metis length_0_conv length_replicate less_numeral_extra(3))
qed

text \<open>
  C1, as stated, fails: the decryptor is used without an unpadder, so a fixture made from
  a padded plaintext does not come back as the plaintext. The blob at \<^verbatim>\<open>/hello\<close> is the
  CBC encryption, under the derived key and IV, of \<^verbatim>\<open>Hello\<close> with its eleven padding
  bytes, followed by a 10-byte tag; \<^verbatim>\<open>download_media\<close> returns the 16 bytes of \<^verbatim>\<open>Hello\<close>
  and the padding, not the five bytes of \<^verbatim>\<open>Hello\<close>.
\<close>

theorem download_media_keeps_padding:
  "download_file example_media_calls ''/hello'' () =
     Inr (cbc_encrypt (standin_block example_key) example_iv
            (short_plaintext @ pkcs7_padding short_plaintext) @ hello_tag) \<and>
   download_media example_media_calls (example_media_message ''/hello'') False () =
     Inr (short_plaintext @ replicate 11 11) \<and>
   download_media example_media_calls (example_media_message ''/hello'') False () \<noteq>
     Inr short_plaintext"
proof -
  have dl: "download_file example_media_calls ''/hello'' () =
              Inr ([0x58, 0x75, 0x7c, 0x7c, 0x7f, 0x1b, 0x1b, 0x1b,
                    0x1b, 0x1b, 0x1b, 0x1b, 0x1b, 0x1b, 0x1b, 0x1b] @ hello_tag)"
  proof -
    have "downloadFile example_media_calls ''/hello'' () =
            Inr ''WHV8fH8bGxsbGxsbGxsbG/Dx8vP09fb3+Pk=''"
      by (simp add: example_media_calls_def)
    then show ?thesis
      using example_fixture_blobs(1) by (simp add: download_file_def)
  qed
  have run: "download_media example_media_calls (example_media_message ''/hello'') False () =
               Inr (short_plaintext @ replicate 11 11)"
    by code_simp
  have differ: "short_plaintext @ replicate 11 11 \<noteq> short_plaintext"
    by simp
  show ?thesis
    using dl run differ by (simp add: example_encryption(1))
qed

text \<open>
  C1, amended. When the download and the decodings succeed and the key derivation returns
  its 112 bytes \<open>d\<close>, \<^verbatim>\<open>download_media\<close> without preview returns what the specified
  pipeline returns: AES-CBC decryption, under the key \<open>d[16..47]\<close> and the IV \<open>d[0..15]\<close>,
  of the blob without its last 10 bytes, with no padding removed. So for a fixture blob
  made by padding a plaintext as PKCS#7 does, CBC-encrypting it under that key and IV and
  appending a 10-byte tag, the result is the plaintext followed by its padding bytes,
  which are never none.
\<close>

theorem download_media_returns_padded_plaintext:
  fixes lib :: "'w media_calls"
  assumes download: "downloadFile lib (client_url m) w = Inr b64"
    and blob: "b64decode lib b64 = Inr blob"
    and key: "b64decode lib (media_key m) = Inr key"
    and hex: "crypt_keys m (type m) = Some hex"
    and info: "unhexlify lib hex = Inr info"
    and hkdf: "deriveSecrets lib key info 112 = Inr d"
    and len: "length d = 112"
  shows "download_media lib m False w = spec_plaintext (aes_decrypt_block lib) d blob \<and>
         (\<forall>E plaintext tag.
            (\<forall>b. length b = 16 \<longrightarrow>
                 length (E b) = 16 \<and>
                 aes_decrypt_block lib (byte_range d 16 47) (E b) = b) \<and>
            length tag = 10 \<and>
            blob = cbc_encrypt E (byte_range d 0 15) (plaintext @ pkcs7_padding plaintext) @ tag
            \<longrightarrow>
            download_media lib m False w = Inr (plaintext @ pkcs7_padding plaintext) \<and>
            pkcs7_padding plaintext \<noteq> [])"
proof -
  have iv: "byte_range d 0 15 = take 16 d"
    using byte_range_window [of 15 d 0] len by simp
  have ck: "byte_range d 16 47 = take 32 (drop 16 d)"
    using byte_range_window [of 47 d 16] len by simp
  have run: "download_media lib m False w =
               Cipher_AES_CBC_decrypt (aes_decrypt_block lib) (take 32 (drop 16 d)) (take 16 d)
                 (slice_until_last 10 blob)"
    using download_media_run [OF download blob key hex info] hkdf by simp
  have first: "download_media lib m False w = spec_plaintext (aes_decrypt_block lib) d blob"
    unfolding spec_plaintext_def iv ck strip_as_rev by (rule run)
  have second: "download_media lib m False w = Inr (plaintext @ pkcs7_padding plaintext)"
    if inv: "\<forall>b. length b = 16 \<longrightarrow>
                 length (E b) = 16 \<and>
                 aes_decrypt_block lib (byte_range d 16 47) (E b) = b"
      and tag: "length tag = 10"
      and fixture: "blob = cbc_encrypt E (byte_range d 0 15)
                             (plaintext @ pkcs7_padding plaintext) @ tag"
    for E plaintext tag
  proof -
    define padded where "padded = plaintext @ pkcs7_padding plaintext"
    have n: "length padded = 16 * Suc (length plaintext div 16)"
      unfolding padded_def by (rule pkcs7_padded_length)
    have liv: "length (take 16 d) = 16"
      using len by simp
    have inv': "length (E b) = 16 \<and> aes_decrypt_block lib (take 32 (drop 16 d)) (E b) = b"
      if "length b = 16" for b
      using inv that unfolding ck by blast
    have rt: "cbc_decrypt (aes_decrypt_block lib (take 32 (drop 16 d))) (take 16 d)
                (cbc_encrypt E (take 16 d) padded) = padded \<and>
              length (cbc_encrypt E (take 16 d) padded) = length padded"
      using inv' liv n by (rule cbc_roundtrip)
    have stripped: "slice_until_last 10 blob = cbc_encrypt E (take 16 d) padded"
      unfolding fixture iv padded_def [symmetric] by (simp add: slice_until_last_def tag)
    have "download_media lib m False w = Inr padded"
      using rt len n by (simp add: run stripped Cipher_AES_CBC_decrypt_def)
    then show ?thesis
      by (simp only: padded_def)
  qed
  show ?thesis
  proof (intro conjI allI impI)
    show "download_media lib m False w = spec_plaintext (aes_decrypt_block lib) d blob"
      by (rule first)
  next
    fix E plaintext tag
    assume "(\<forall>b. length b = 16 \<longrightarrow>
                 length (E b) = 16 \<and>
                 aes_decrypt_block lib (byte_range d 16 47) (E b) = b) \<and>
            length tag = 10 \<and>
            blob = cbc_encrypt E (byte_range d 0 15) (plaintext @ pkcs7_padding plaintext) @ tag"
    then show "download_media lib m False w = Inr (plaintext @ pkcs7_padding plaintext)"
      by (elim conjE) (rule second)
  next
    fix plaintext
    show "pkcs7_padding plaintext \<noteq> []"
      by (rule pkcs7_padding_not_empty)
  qed
qed

theorem download_media_returns_padded_plaintext_witness:
  "download_media example_media_calls (example_media_message ''/image'') False () =
     Inr (hello_plaintext @ replicate 16 16) \<and>
   length hello_plaintext = 16"
proof -
  define d :: bytes where "d = map of_nat [0..<112]"
  define E where "E = standin_block (byte_range d 16 47)"
  have download: "downloadFile example_media_calls
                    (client_url (example_media_message ''/image'')) () =
                    Inr ''WHV8fH88MEd4cWRjUWBgMVh0fn97OTZAcHhuaF1tbj7w8fLz9PX29/j5''"
    by (simp add: example_media_download)
  have derive: "deriveSecrets example_media_calls (replicate 32 0)
                  (map (\<lambda>c. of_nat (of_char c)) ''WhatsApp Image Keys'') 112 = Inr d"
    unfolding d_def by (rule example_media_derive)
  have len: "length d = 112"
    by (simp add: d_def)
  have lk: "16 \<le> length (byte_range d 16 47)"
    unfolding d_def example_key_iv by (simp add: example_key_def)
  have block: "aes_decrypt_block example_media_calls = standin_block"
    by (simp add: example_media_calls_def)
  have inv: "\<forall>b. length b = 16 \<longrightarrow>
               length (E b) = 16 \<and>
               aes_decrypt_block example_media_calls (byte_range d 16 47) (E b) = b"
    unfolding block E_def using standin_block_inverse [OF lk] by blast
  have sixteen: "length hello_plaintext = 16"
    by (simp add: hello_plaintext_def)
  have tag: "length hello_tag = 10"
    by (simp add: hello_tag_def)
  have fixture: "[0x58, 0x75, 0x7c, 0x7c, 0x7f, 0x3c, 0x30, 0x47,
                  0x78, 0x71, 0x64, 0x63, 0x51, 0x60, 0x60, 0x31,
                  0x58, 0x74, 0x7e, 0x7f, 0x7b, 0x39, 0x36, 0x40,
                  0x70, 0x78, 0x6e, 0x68, 0x5d, 0x6d, 0x6e, 0x3e] @ hello_tag =
                   cbc_encrypt E (byte_range d 0 15)
                     (hello_plaintext @ pkcs7_padding hello_plaintext) @ hello_tag"
    unfolding E_def d_def example_key_iv example_encryption by (rule refl)
  have all: "\<forall>E plaintext tag.
            (\<forall>b. length b = 16 \<longrightarrow>
                 length (E b) = 16 \<and>
                 aes_decrypt_block example_media_calls (byte_range d 16 47) (E b) = b) \<and>
            length tag = 10 \<and>
            [0x58, 0x75, 0x7c, 0x7c, 0x7f, 0x3c, 0x30, 0x47,
             0x78, 0x71, 0x64, 0x63, 0x51, 0x60, 0x60, 0x31,
             0x58, 0x74, 0x7e, 0x7f, 0x7b, 0x39, 0x36, 0x40,
             0x70, 0x78, 0x6e, 0x68, 0x5d, 0x6d, 0x6e, 0x3e] @ hello_tag =
              cbc_encrypt E (byte_range d 0 15) (plaintext @ pkcs7_padding plaintext) @ tag
            \<longrightarrow>
            download_media example_media_calls (example_media_message ''/image'') False () =
              Inr (plaintext @ pkcs7_padding plaintext) \<and>
            pkcs7_padding plaintext \<noteq> []"
    using download_media_returns_padded_plaintext
        [OF download example_fixture_blobs(2) example_media_key example_media_info derive len]
    by (rule conjunct2)
  have "download_media example_media_calls (example_media_message ''/image'') False () =
          Inr (hello_plaintext @ pkcs7_padding hello_plaintext) \<and>
        pkcs7_padding hello_plaintext \<noteq> []"
    using inv tag fixture
    by (intro all [rule_format, of E hello_tag hello_plaintext] conjI)
  then have "download_media example_media_calls (example_media_message ''/image'') False () =
          Inr (hello_plaintext @ replicate 16 16)"
    by (simp only: example_paddings)
  moreover note sixteen
  ultimately show ?thesis by (rule conjI)
qed

text \<open>
  C8, as stated, fails: a blob of fewer than 10 bytes is not an error. The three-byte
  blob at \<^verbatim>\<open>/short\<close> is cut to the empty string by \<^verbatim>\<open>file_data[:-10]\<close>, the empty
  string is a multiple of the block length, and \<^verbatim>\<open>download_media\<close> returns the empty
  plaintext.
\<close>

theorem download_media_short_blob_succeeds:
  "download_file example_media_calls ''/short'' () = Inr [0, 1, 2] \<and>
   download_media example_media_calls (example_media_message ''/short'') False () = Inr []"
  by code_simp

text \<open>
  C8, amended. Let the download and the decodings succeed. A blob whose length after
  \<^verbatim>\<open>file_data[:-10]\<close> is not a multiple of 16 makes \<^verbatim>\<open>download_media\<close> raise the
  \<^verbatim>\<open>ValueError\<close> of the cipher's \<^verbatim>\<open>finalize\<close>; a blob of at most 10 bytes raises nothing
  and gives the empty plaintext. An exception of the key derivation is raised unchanged,
  and derived material too short for a 16-byte key makes the cipher's construction raise
  \<^verbatim>\<open>ValueError\<close>. The module wraps none of these in an error class of its own.
\<close>

theorem download_media_library_errors_propagate:
  fixes lib :: "'w media_calls"
  assumes download: "downloadFile lib (client_url m) w = Inr b64"
    and blob: "b64decode lib b64 = Inr blob"
    and key: "b64decode lib (media_key m) = Inr key"
    and hex: "crypt_keys m (type m) = Some hex"
    and info: "unhexlify lib hex = Inr info"
  shows "(\<forall>e. deriveSecrets lib key info 112 = Inl e \<longrightarrow>
            download_media lib m False w = Inl e) \<and>
         (\<forall>d. deriveSecrets lib key info 112 = Inr d \<and> length d < 32 \<longrightarrow>
            download_media lib m False w = Inl ValueError) \<and>
         (\<forall>d. deriveSecrets lib key info 112 = Inr d \<and> length d = 112 \<longrightarrow>
            ((length blob - 10) mod 16 \<noteq> 0 \<longrightarrow>
               download_media lib m False w = Inl ValueError) \<and>
            (length blob \<le> 10 \<longrightarrow> download_media lib m False w = Inr []))"
proof (intro conjI allI impI)
  fix e
  assume "deriveSecrets lib key info 112 = Inl e"
  then show "download_media lib m False w = Inl e"
    using download_media_run [OF download blob key hex info] by simp
next
  fix d
  assume "deriveSecrets lib key info 112 = Inr d \<and> length d < 32"
  then show "download_media lib m False w = Inl ValueError"
    using download_media_run [OF download blob key hex info]
    by (auto simp: Cipher_AES_CBC_decrypt_def min_def)
next
  fix d
  assume d: "deriveSecrets lib key info 112 = Inr d \<and> length d = 112"
    and odd: "(length blob - 10) mod 16 \<noteq> 0"
  show "download_media lib m False w = Inl ValueError"
    using download_media_run [OF download blob key hex info] d odd
    by (simp add: Cipher_AES_CBC_decrypt_def slice_until_last_def)
next
  fix d
  assume d: "deriveSecrets lib key info 112 = Inr d \<and> length d = 112"
    and short: "length blob \<le> 10"
  show "download_media lib m False w = Inr []"
    using download_media_run [OF download blob key hex info] d short
    by (simp add: Cipher_AES_CBC_decrypt_def slice_until_last_def cbc_decrypt.simps)
qed

theorem download_media_library_errors_propagate_witness:
  "download_file example_media_calls ''/odd'' () =
     Inr [0, 1, 2, 3, 4, 5, 6, 7, 8, 9, 10, 11, 12] \<and>
   download_media example_media_calls (example_media_message ''/odd'') False () =
     Inl ValueError"
proof -
  define d :: bytes where "d = map of_nat [0..<112]"
  define blob :: bytes where "blob = [0, 1, 2, 3, 4, 5, 6, 7, 8, 9, 10, 11, 12]"
  have download: "downloadFile example_media_calls
                    (client_url (example_media_message ''/odd'')) () =
                    Inr ''AAECAwQFBgcICQoLDA==''"
    by (simp add: example_media_download)
  have decoded: "b64decode example_media_calls ''AAECAwQFBgcICQoLDA=='' = Inr blob"
    unfolding blob_def by (rule example_blobs(2))
  have dl: "download_file example_media_calls ''/odd'' () = Inr blob"
    using download decoded by (simp add: download_file_def example_media_message_def)
  have derive: "deriveSecrets example_media_calls (replicate 32 0)
                  (map (\<lambda>c. of_nat (of_char c)) ''WhatsApp Image Keys'') 112 = Inr d \<and>
                length d = 112"
    unfolding d_def by (simp add: example_media_derive)
  have odd: "(length blob - 10) mod 16 \<noteq> 0"
    by (simp add: blob_def)
  have "download_media example_media_calls (example_media_message ''/odd'') False () =
          Inl ValueError"
    using download_media_library_errors_propagate
      [OF download decoded example_media_key example_media_info] derive odd
    by blast
  with dl show ?thesis by (simp add: blob_def)
qed


subsection \<open>Saving the profile\<close>

lemma copytree_result:
  "copytree fs src dst = Inr fs1 \<Longrightarrow>
   \<exists>entries. fs src = Some (Dir entries) \<and> fs dst = None \<and>
     fs1 = fs(dst \<mapsto> Dir (map (\<lambda>e. (fst e, copy_ignoring (snd e)))
                              (filter (\<lambda>e. fst e \<notin> set lock_names) entries)))"
  by (auto simp: copytree_def split: option.splits node.splits if_splits)

lemma rmtree_elsewhere:
  "q \<noteq> p \<Longrightarrow> snd (rmtree leaves fs p) q = fs q"
  by (simp add: rmtree_def split: option.splits node.splits)

lemma replace_profile_empty_copy:
  assumes live: "fs profile_dir = Some (Dir entries)"
    and fresh: "fs (profile_path @ ''__tmp'') = None"
    and empty: "filter (\<lambda>e. fst e \<notin> set lock_names) entries = []"
    and removable: "leaves (profile_path @ ''__tmp'') (Dir []) = None"
  shows "replace_profile leaves profile_dir profile_path fs =
           (Inl (WhatsAPIException ''Missing tmp firefox profile.''), fs)"
proof -
  have copy: "copytree fs profile_dir (profile_path @ ''__tmp'') =
                Inr (fs(profile_path @ ''__tmp'' \<mapsto> Dir []))"
    using live fresh empty by (simp add: copytree_def)
  have restored: "fs(profile_path @ ''__tmp'' := None) = fs"
    using fresh by (auto simp: fun_eq_iff)
  show ?thesis
    unfolding replace_profile_def Let_def copy
    by (simp add: path_exists_def listdir_def rmtree_def removable restored)
qed

lemma replace_profile_needs_copy:
  assumes "fst (replace_profile leaves profile_dir profile_path fs) = Inr () \<or>
           snd (replace_profile leaves profile_dir profile_path fs) profile_path \<noteq> fs profile_path"
  shows "\<exists>entries. fs profile_dir = Some (Dir entries) \<and>
           filter (\<lambda>e. fst e \<notin> set lock_names) entries \<noteq> []"
proof (cases "copytree fs profile_dir (profile_path @ ''__tmp'')")
  case (Inl e)
  with assms show ?thesis by (simp add: replace_profile_def)
next
  case (Inr fs1)
  from copytree_result [OF Inr] obtain entries where
    live: "fs profile_dir = Some (Dir entries)" and
    fs1: "fs1 = fs(profile_path @ ''__tmp'' \<mapsto> Dir (map (\<lambda>e. (fst e, copy_ignoring (snd e)))
                              (filter (\<lambda>e. fst e \<notin> set lock_names) entries)))"
    by blast
  show ?thesis
  proof (cases "filter (\<lambda>e. fst e \<notin> set lock_names) entries = []")
    case False
    with live show ?thesis by blast
  next
    case True
    have untouched: "snd (rmtree leaves fs1 (profile_path @ ''__tmp'')) profile_path = fs profile_path"
      by (simp add: rmtree_elsewhere fs1)
    have "replace_profile leaves profile_dir profile_path fs =
            (case rmtree leaves fs1 (profile_path @ ''__tmp'') of
               (Inl e, fs') \<Rightarrow> (Inl e, fs')
             | (Inr u, fs') \<Rightarrow> (Inl (WhatsAPIException ''Missing tmp firefox profile.''), fs'))"
      unfolding replace_profile_def Let_def Inr
      by (simp add: fs1 True path_exists_def listdir_def)
    then have "fst (replace_profile leaves profile_dir profile_path fs) \<noteq> Inr () \<and>
               snd (replace_profile leaves profile_dir profile_path fs) profile_path = fs profile_path"
      using untouched by (auto split: prod.splits sum.splits)
    with assms show ?thesis by blast
  qed
qed


text \<open>
  C6. With \<^verbatim>\<open>remove_old\<close>, when the live profile has nothing but lock files to copy (the
  temporary copy is empty; after a \<^verbatim>\<open>copytree\<close> that succeeded it is never missing), the
  method removes the temporary directory and raises
  \<^verbatim>\<open>WhatsAPIException("Missing tmp firefox profile.")\<close>, leaving the file system as it
  was, the prior profile included. In general the method returns normally, or changes
  what is at the permanent profile path, only if the copy of the live profile is not
  empty.
\<close>

theorem save_with_empty_copy_is_fatal:
  "(\<forall>entries.
      fs profile_dir = Some (Dir entries) \<and>
      fs (profile_path @ ''__tmp'') = None \<and>
      filter (\<lambda>e. fst e \<notin> set lock_names) entries = [] \<and>
      leaves (profile_path @ ''__tmp'') (Dir []) = None \<longrightarrow>
      save_firefox_profile leaves storage_json profile_dir profile_path True fs =
        (Inl (WhatsAPIException ''Missing tmp firefox profile.''), fs)) \<and>
   (fst (save_firefox_profile leaves storage_json profile_dir profile_path True fs) = Inr () \<or>
    snd (save_firefox_profile leaves storage_json profile_dir profile_path True fs) profile_path
      \<noteq> fs profile_path \<longrightarrow>
    (\<exists>entries. fs profile_dir = Some (Dir entries) \<and>
       filter (\<lambda>e. fst e \<notin> set lock_names) entries \<noteq> []))"
proof (intro conjI allI impI)
  fix entries
  assume "fs profile_dir = Some (Dir entries) \<and>
      fs (profile_path @ ''__tmp'') = None \<and>
      filter (\<lambda>e. fst e \<notin> set lock_names) entries = [] \<and>
      leaves (profile_path @ ''__tmp'') (Dir []) = None"
  then have "replace_profile leaves profile_dir profile_path fs =
               (Inl (WhatsAPIException ''Missing tmp firefox profile.''), fs)"
    by (elim conjE) (rule replace_profile_empty_copy)
  then show "save_firefox_profile leaves storage_json profile_dir profile_path True fs =
               (Inl (WhatsAPIException ''Missing tmp firefox profile.''), fs)"
    by (simp add: save_firefox_profile_def)
next
  assume changed:
    "fst (save_firefox_profile leaves storage_json profile_dir profile_path True fs) = Inr () \<or>
     snd (save_firefox_profile leaves storage_json profile_dir profile_path True fs) profile_path
       \<noteq> fs profile_path"
  obtain r fs' where rp: "replace_profile leaves profile_dir profile_path fs = (r, fs')"
    by (cases "replace_profile leaves profile_dir profile_path fs")
  have "r = Inr () \<or> fs' profile_path \<noteq> fs profile_path"
  proof (cases r)
    case (Inl e)
    with changed rp show ?thesis by (simp add: save_firefox_profile_def)
  next
    case (Inr u)
    then show ?thesis by simp
  qed
  then have "fst (replace_profile leaves profile_dir profile_path fs) = Inr () \<or>
             snd (replace_profile leaves profile_dir profile_path fs) profile_path
               \<noteq> fs profile_path"
    by (simp add: rp)
  then show "\<exists>entries. fs profile_dir = Some (Dir entries) \<and>
               filter (\<lambda>e. fst e \<notin> set lock_names) entries \<noteq> []"
    by (rule replace_profile_needs_copy)
qed

theorem save_with_empty_copy_is_fatal_witness:
  "save_firefox_profile always_removes (Inr ''{}'') ''/tmp/live'' ''/home/me/profile'' True
     locks_only_fs =
     (Inl (WhatsAPIException ''Missing tmp firefox profile.''), locks_only_fs) \<and>
   locks_only_fs ''/home/me/profile'' = Some old_profile \<and>
   fst (save_firefox_profile always_removes (Inr ''{}'') ''/tmp/live'' ''/home/me/profile'' True
          live_fs) = Inr ()"
proof -
  have hyps: "locks_only_fs ''/tmp/live'' =
                Some (Dir [(''parent.lock'', File []), (''lock'', File [])]) \<and>
              locks_only_fs (''/home/me/profile'' @ ''__tmp'') = None \<and>
              filter (\<lambda>e. fst e \<notin> set lock_names)
                [(''parent.lock'', File []), (''lock'', File [])] = [] \<and>
              always_removes (''/home/me/profile'' @ ''__tmp'') (Dir []) = None"
    by (simp add: locks_only_fs_def lock_names_def always_removes_def)
  have old: "locks_only_fs ''/home/me/profile'' = Some old_profile"
    by (simp add: locks_only_fs_def)
  have ok: "fst (save_firefox_profile always_removes (Inr ''{}'') ''/tmp/live''
                   ''/home/me/profile'' True live_fs) = Inr ()"
    by (simp add: save_firefox_profile_def replace_profile_def copytree_def live_fs_def
        lock_names_def path_exists_def listdir_def rmtree_def always_removes_def move_def
        write_local_storage_def old_profile_def)
  from save_with_empty_copy_is_fatal
      [of locks_only_fs "''/tmp/live''" "''/home/me/profile''" always_removes "Inr ''{}''"]
    hyps
  have "save_firefox_profile always_removes (Inr ''{}'') ''/tmp/live'' ''/home/me/profile'' True
          locks_only_fs =
          (Inl (WhatsAPIException ''Missing tmp firefox profile.''), locks_only_fs)"
    by blast
  with old ok show ?thesis by simp
qed


subsection \<open>The local storage snapshot\<close>


lemma digit_step: "(ch div m mod 16) * m + ch mod m = (ch::nat) mod (m * 16)"
  by (simp add: mod_mult2_eq mult.commute)

lemma two_digits:
  assumes "ch < 256"
  shows "(ch div 16 mod 16) * 16 + ch mod 16 = (ch::nat)"
proof -
  have "(ch div 16 mod 16) * 16 + ch mod 16 = ch mod (16 * 16)"
    by (rule digit_step)
  also have "\<dots> = ch"
    using assms by simp
  finally show ?thesis .
qed

lemma four_digits:
  assumes "ch < 65536"
  shows "(ch div 4096 mod 16) * 4096 +
           ((ch div 256 mod 16) * 256 + ((ch div 16 mod 16) * 16 + ch mod 16)) = (ch::nat)"
proof -
  have c: "(ch div 16 mod 16) * 16 + ch mod 16 = ch mod 256"
    using digit_step [of ch 16] by simp
  have b: "(ch div 256 mod 16) * 256 + ch mod 256 = ch mod 4096"
    using digit_step [of ch 256] by simp
  have a: "(ch div 4096 mod 16) * 4096 + ch mod 4096 = ch mod 65536"
    using digit_step [of ch 4096] by simp
  have "ch mod 65536 = ch"
    using assms by simp
  then show ?thesis
    by (simp only: c b a)
qed

lemma js_hex_digit_hexdigit: "n < 16 \<Longrightarrow> js_hex_digit (hexdigit n) = Some n"
  by (auto simp: hexdigit_def js_hex_digit_def)

lemma single_escape_values:
  "single_escape 92 = Some 92"
  "single_escape 116 = Some 9"
  "single_escape 110 = Some 10"
  "single_escape 114 = Some 13"
  "single_escape 120 = None"
  "single_escape 117 = None"
  "single_escape 85 = None"
  by (simp_all add: single_escape_def)

lemma hex_escape2:
  "a < 16 \<Longrightarrow> b < 16 \<Longrightarrow>
   hex_escape 2 (hexdigit a # hexdigit b # s) = Some ([a * 16 + b], s)"
  by (simp add: hex_escape_def js_hex_digit_hexdigit)

lemma hex_escape4:
  "a < 16 \<Longrightarrow> b < 16 \<Longrightarrow> c < 16 \<Longrightarrow> d < 16 \<Longrightarrow>
   hex_escape 4 (hexdigit a # hexdigit b # hexdigit c # hexdigit d # s) =
     Some ([a * 4096 + (b * 256 + (c * 16 + d))], s)"
  by (simp add: hex_escape_def js_hex_digit_hexdigit)

lemma escape_sequence_x:
  "a < 16 \<Longrightarrow> b < 16 \<Longrightarrow>
   escape_sequence (120 # hexdigit a # hexdigit b # s) = Some ([a * 16 + b], s)"
  by (simp add: escape_sequence_def single_escape_values hex_escape2)

lemma escape_sequence_u:
  "a < 16 \<Longrightarrow> b < 16 \<Longrightarrow> c < 16 \<Longrightarrow> d < 16 \<Longrightarrow>
   escape_sequence (117 # hexdigit a # hexdigit b # hexdigit c # hexdigit d # s) =
     Some ([a * 4096 + (b * 256 + (c * 16 + d))], s)"
  by (simp add: escape_sequence_def single_escape_values hex_escape4)

lemma escape_sequence_single:
  "escape_sequence (92 # s) = Some ([92], s)"
  "escape_sequence (116 # s) = Some ([9], s)"
  "escape_sequence (110 # s) = Some ([10], s)"
  "escape_sequence (114 # s) = Some ([13], s)"
  by (simp_all add: escape_sequence_def single_escape_values)

lemma string_literal_plain:
  "c \<noteq> 39 \<Longrightarrow> c \<noteq> 10 \<Longrightarrow> c \<noteq> 13 \<Longrightarrow> c \<noteq> 92 \<Longrightarrow>
   string_literal (c # s) =
     (case string_literal s of None \<Rightarrow> None | Some (v, rest) \<Rightarrow> Some (c # v, rest))"
  by (simp add: string_literal_Cons)

lemma string_literal_escape:
  "escape_sequence s = Some ([ch], s') \<Longrightarrow>
   string_literal (92 # s) =
     (case string_literal s' of None \<Rightarrow> None | Some (v, rest) \<Rightarrow> Some (ch # v, rest))"
  by (simp add: string_literal_Cons split: option.splits)

lemma unicode_escape_char_cases:
  "ch < 65536 \<Longrightarrow>
   (32 \<le> ch \<and> ch < 127 \<and> ch \<noteq> 92 \<and> unicode_escape_char ch = [ch]) \<or>
   (ch = 92 \<and> unicode_escape_char ch = [92, 92]) \<or>
   (ch = 9 \<and> unicode_escape_char ch = [92, 116]) \<or>
   (ch = 10 \<and> unicode_escape_char ch = [92, 110]) \<or>
   (ch = 13 \<and> unicode_escape_char ch = [92, 114]) \<or>
   (ch < 256 \<and>
      unicode_escape_char ch = [92, 120, hexdigit (ch div 16 mod 16), hexdigit (ch mod 16)]) \<or>
   (unicode_escape_char ch =
      [92, 117, hexdigit (ch div 4096 mod 16), hexdigit (ch div 256 mod 16),
       hexdigit (ch div 16 mod 16), hexdigit (ch mod 16)])"
  by (simp add: unicode_escape_char_def ascii_def)

lemma string_literal_escaped_char:
  assumes bmp: "ch < 65536" and no_quote: "ch \<noteq> 39"
  shows "string_literal (unicode_escape_char ch @ s) =
           (case string_literal s of None \<Rightarrow> None | Some (v, rest) \<Rightarrow> Some (ch # v, rest))"
proof -
  consider
      (plain) "32 \<le> ch" "ch < 127" "ch \<noteq> 92" "unicode_escape_char ch = [ch]"
    | (backslash) "ch = 92" "unicode_escape_char ch = [92, 92]"
    | (tab) "ch = 9" "unicode_escape_char ch = [92, 116]"
    | (newline) "ch = 10" "unicode_escape_char ch = [92, 110]"
    | (return) "ch = 13" "unicode_escape_char ch = [92, 114]"
    | (x) "ch < 256"
        "unicode_escape_char ch = [92, 120, hexdigit (ch div 16 mod 16), hexdigit (ch mod 16)]"
    | (u) "unicode_escape_char ch =
        [92, 117, hexdigit (ch div 4096 mod 16), hexdigit (ch div 256 mod 16),
         hexdigit (ch div 16 mod 16), hexdigit (ch mod 16)]"
    using unicode_escape_char_cases [OF bmp] by blast
  then show ?thesis
  proof cases
    case plain
    then show ?thesis
      using no_quote by (simp add: string_literal_plain split: option.splits)
  next
    case backslash
    then show ?thesis
      by (simp add: string_literal_escape [OF escape_sequence_single(1)] split: option.splits)
  next
    case tab
    then show ?thesis
      by (simp add: string_literal_escape [OF escape_sequence_single(2)] split: option.splits)
  next
    case newline
    then show ?thesis
      by (simp add: string_literal_escape [OF escape_sequence_single(3)] split: option.splits)
  next
    case return
    then show ?thesis
      by (simp add: string_literal_escape [OF escape_sequence_single(4)] split: option.splits)
  next
    case x
    have "escape_sequence (120 # hexdigit (ch div 16 mod 16) # hexdigit (ch mod 16) # s) =
            Some ([(ch div 16 mod 16) * 16 + ch mod 16], s)"
      by (rule escape_sequence_x) simp_all
    then have "escape_sequence (120 # hexdigit (ch div 16 mod 16) # hexdigit (ch mod 16) # s) =
            Some ([ch], s)"
      by (simp only: two_digits [OF x(1)])
    then show ?thesis
      by (simp add: x(2) string_literal_escape split: option.splits)
  next
    case u
    have "escape_sequence (117 # hexdigit (ch div 4096 mod 16) # hexdigit (ch div 256 mod 16) #
            hexdigit (ch div 16 mod 16) # hexdigit (ch mod 16) # s) =
            Some ([(ch div 4096 mod 16) * 4096 +
                   ((ch div 256 mod 16) * 256 + ((ch div 16 mod 16) * 16 + ch mod 16))], s)"
      by (rule escape_sequence_u) simp_all
    then have "escape_sequence (117 # hexdigit (ch div 4096 mod 16) #
            hexdigit (ch div 256 mod 16) #
            hexdigit (ch div 16 mod 16) # hexdigit (ch mod 16) # s) = Some ([ch], s)"
      by (simp only: four_digits [OF bmp])
    then show ?thesis
      by (simp add: u string_literal_escape split: option.splits)
  qed
qed

lemma unicode_escape_Cons: "unicode_escape (ch # v) = unicode_escape_char ch @ unicode_escape v"
  by (simp add: unicode_escape_def)

lemma string_literal_closing: "string_literal (39 # r) = Some ([], r)"
  by (simp add: string_literal_Cons)

lemma string_literal_escaped:
  "\<forall>ch\<in>set v. ch < 65536 \<and> ch \<noteq> 39 \<Longrightarrow>
   string_literal (unicode_escape v @ 39 # r) = Some (v, r)"
proof (induction v)
  case Nil
  show ?case by (simp add: unicode_escape_def string_literal_closing)
next
  case (Cons ch v)
  then have "string_literal (unicode_escape v @ 39 # r) = Some (v, r)"
    by simp
  moreover have "string_literal (unicode_escape_char ch @ unicode_escape v @ 39 # r) =
                   (case string_literal (unicode_escape v @ 39 # r) of
                      None \<Rightarrow> None
                    | Some (w, rest) \<Rightarrow> Some (ch # w, rest))"
    using Cons.prems by (intro string_literal_escaped_char) simp_all
  ultimately show ?case
    by (simp add: unicode_escape_Cons)
qed

lemma string_literal_raw:
  "\<forall>c\<in>set k. c \<noteq> 39 \<and> c \<noteq> 92 \<and> c \<noteq> 10 \<and> c \<noteq> 13 \<Longrightarrow>
   string_literal (k @ 39 # r) = Some (k, r)"
  by (induction k) (simp_all add: string_literal_closing string_literal_plain)

lemma length_statement_prefix: "length statement_prefix = 29"
  by (simp add: statement_prefix_def ascii_def)

lemma setItem_calls_Nil: "setItem_calls [] = Some []"
  by (subst setItem_calls.simps) simp

lemma setItem_calls_step:
  assumes key: "\<And>r. string_literal (ks @ 39 # r) = Some (k, r)"
    and val: "string_literal tail = Some (v, after_value)"
  shows "setItem_calls (statement_prefix @ ks @ 39 # (ascii '', '' @ [39]) @ tail) =
           (if take 2 after_value \<noteq> ascii '');'' then None
            else (case setItem_calls (drop 2 after_value) of
                    None \<Rightarrow> None
                  | Some calls \<Rightarrow> Some ((k, v) # calls)))"
proof -
  define S where "S = ascii '', '' @ [39]"
  define K where "K = ks @ 39 # (S @ tail)"
  have lS: "length S = 3"
    by (simp add: S_def ascii_def)
  have script: "statement_prefix @ ks @ 39 # (ascii '', '' @ [39]) @ tail = statement_prefix @ K"
    by (simp add: K_def S_def)
  have ne: "statement_prefix @ K \<noteq> []"
    using length_statement_prefix by auto
  have p: "take 29 (statement_prefix @ K) = statement_prefix"
    "drop 29 (statement_prefix @ K) = K"
    by (simp_all add: length_statement_prefix)
  have k: "string_literal K = Some (k, S @ tail)"
    unfolding K_def by (rule key)
  have s: "take 3 (S @ tail) = S" "drop 3 (S @ tail) = tail"
    by (simp_all add: lS)
  have "setItem_calls (statement_prefix @ K) =
          (if take 2 after_value \<noteq> ascii '');'' then None
            else (case setItem_calls (drop 2 after_value) of
                    None \<Rightarrow> None
                  | Some calls \<Rightarrow> Some ((k, v) # calls)))"
    by (subst setItem_calls.simps)
       (simp add: ne p k s val del: take_append drop_append append_is_Nil_conv
          flip: statement_prefix_def S_def)
  then show ?thesis
    by (simp only: script)
qed

lemma setItem_calls_statement:
  assumes key: "\<And>r. string_literal (ks @ 39 # r) = Some (k, r)"
    and val: "\<And>r. string_literal (vs @ 39 # r) = Some (v, r)"
  shows "setItem_calls (setItem_statement ks vs @ rest) =
           (case setItem_calls rest of None \<Rightarrow> None | Some calls \<Rightarrow> Some ((k, v) # calls))"
proof -
  have script: "setItem_statement ks vs @ rest =
                  statement_prefix @ ks @ 39 # (ascii '', '' @ [39]) @ (vs @ 39 # (ascii '');'' @ rest))"
    by (simp add: setItem_statement_def statement_prefix_def)
  have l: "length (ascii '');'') = 2"
    by (simp add: ascii_def)
  show ?thesis
    unfolding script
    by (subst setItem_calls_step [OF key val]) (simp_all add: l)
qed

lemma storage_script_Cons:
  "storage_script (item # data) = setItem_statement (fst item) (snd item) @ storage_script data"
  by (simp add: storage_script_def)

lemma setItem_calls_snapshot:
  assumes "\<forall>item\<in>set items.
             (\<forall>c\<in>set (fst item). c \<noteq> 39 \<and> c \<noteq> 92 \<and> c \<noteq> 10 \<and> c \<noteq> 13) \<and>
             (\<forall>ch\<in>set (snd item). ch < 65536 \<and> ch \<noteq> 39)"
  shows "setItem_calls
           (storage_script (map (\<lambda>item. (fst item, unicode_escape (snd item))) items)) =
         Some items"
  using assms
proof (induction items)
  case Nil
  show ?case by (simp add: storage_script_def setItem_calls_Nil)
next
  case (Cons item items)
  have key: "string_literal (fst item @ 39 # r) = Some (fst item, r)" for r
    using Cons.prems by (intro string_literal_raw) simp
  have val: "string_literal (unicode_escape (snd item) @ 39 # r) = Some (snd item, r)" for r
    using Cons.prems by (intro string_literal_escaped) simp
  have rest: "setItem_calls
           (storage_script (map (\<lambda>item. (fst item, unicode_escape (snd item))) items)) =
         Some items"
    using Cons by simp
  show ?case
    by (simp add: storage_script_Cons setItem_calls_statement [OF key val] rest)
qed

lemma fresh_items_are_appended:
  "distinct (map fst items) \<Longrightarrow> fst ` set st \<inter> fst ` set items = {} \<Longrightarrow>
   foldl (\<lambda>st item.
            if fst item \<in> fst ` set st
            then map (\<lambda>old. if fst old = fst item then item else old) st
            else st @ [item]) st items = st @ items"
proof (induction items arbitrary: st)
  case Nil
  show ?case by simp
next
  case (Cons item items)
  have fresh: "fst item \<notin> fst ` set st"
    using Cons.prems(2) by auto
  have "fst ` set (st @ [item]) \<inter> fst ` set items = {}"
    using Cons.prems by auto
  with Cons.IH [of "st @ [item]"] Cons.prems(1) fresh show ?case
    by simp
qed

text \<open>
  Where the round trip does hold: for distinct keys without quote, backslash or line
  terminator, and values without quote whose code points are below \<open>0x10000\<close>, restoring
  the snapshot into an empty storage gives back the items, control and non-ASCII
  characters included.
\<close>

lemma local_storage_round_trip_safe:
  assumes "distinct (map fst items)"
    and "\<forall>item\<in>set items.
             (\<forall>c\<in>set (fst item). c \<noteq> 39 \<and> c \<noteq> 92 \<and> c \<noteq> 10 \<and> c \<noteq> 13) \<and>
             (\<forall>ch\<in>set (snd item). ch < 65536 \<and> ch \<noteq> 39)"
  shows "\<exists>snapshot.
           get_local_storage example_script_driver items = Inr snapshot \<and>
           set_local_storage example_script_driver snapshot [] = Inr items"
proof -
  have "set_local_storage example_script_driver
          (map (\<lambda>item. (fst item, unicode_escape (snd item))) items) [] = Inr items"
    using fresh_items_are_appended [of items "[]"] assms(1)
    by (simp add: set_local_storage_def example_script_driver_def example_page_run_def
        setItem_calls_snapshot [OF assms(2)])
  then show ?thesis
    by (simp add: get_local_storage_def example_script_driver_def)
qed

lemma emoji_escaped:
  "get_local_storage example_script_driver [(ascii ''emoji'', [0x1F600])] =
     Inr [(ascii ''emoji'', 92 # ascii ''U0001f600'')]"
  by (simp add: get_local_storage_def example_script_driver_def unicode_escape_def
      unicode_escape_char_def hexdigit_def ascii_def)

lemma emoji_literal:
  "string_literal ((92 # ascii ''U0001f600'') @ 39 # r) = Some (ascii ''U0001f600'', r)"
proof -
  have e: "escape_sequence (85 # s) = Some ([85], s)" for s
    by (simp add: escape_sequence_def single_escape_def)
  have digits: "string_literal (ascii ''0001f600'' @ 39 # r) = Some (ascii ''0001f600'', r)"
    by (rule string_literal_raw) (simp add: ascii_def)
  have "string_literal (92 # 85 # ascii ''0001f600'' @ 39 # r) =
          Some (85 # ascii ''0001f600'', r)"
    using string_literal_escape [OF e, of "ascii ''0001f600'' @ 39 # r"] digits by simp
  then show ?thesis
    by (simp add: ascii_def)
qed

lemma emoji_restored:
  "set_local_storage example_script_driver [(ascii ''emoji'', 92 # ascii ''U0001f600'')] [] =
     Inr [(ascii ''emoji'', ascii ''U0001f600'')]"
proof -
  have key: "string_literal (ascii ''emoji'' @ 39 # r) = Some (ascii ''emoji'', r)" for r
    by (rule string_literal_raw) (simp add: ascii_def)
  have "setItem_calls (setItem_statement (ascii ''emoji'') (92 # ascii ''U0001f600'') @ []) =
          Some [(ascii ''emoji'', ascii ''U0001f600'')]"
    by (subst setItem_calls_statement [OF key emoji_literal]) (simp add: setItem_calls_Nil)
  then show ?thesis
    by (simp add: set_local_storage_def example_script_driver_def example_page_run_def
        storage_script_def)
qed

lemma quote_escaped:
  "get_local_storage example_script_driver [(ascii ''name'', ascii ''it'' @ 39 # ascii ''s'')] =
     Inr [(ascii ''name'', ascii ''it'' @ 39 # ascii ''s'')]"
  by (simp add: get_local_storage_def example_script_driver_def unicode_escape_def
      unicode_escape_char_def ascii_def)

lemma quote_restored:
  "set_local_storage example_script_driver [(ascii ''name'', ascii ''it'' @ 39 # ascii ''s'')] [] =
     Inl JavascriptException"
proof -
  have key: "string_literal (ascii ''name'' @ 39 # r) = Some (ascii ''name'', r)" for r
    by (rule string_literal_raw) (simp add: ascii_def)
  have val: "string_literal (ascii ''it'' @ 39 # (ascii ''s'' @ 39 # ascii '');'')) =
               Some (ascii ''it'', ascii ''s'' @ 39 # ascii '');'')"
    by (rule string_literal_raw) (simp add: ascii_def)
  have script: "storage_script [(ascii ''name'', ascii ''it'' @ 39 # ascii ''s'')] =
                  statement_prefix @ ascii ''name'' @ 39 # (ascii '', '' @ [39]) @
                    (ascii ''it'' @ 39 # (ascii ''s'' @ 39 # ascii '');''))"
    by (simp add: storage_script_def setItem_statement_def statement_prefix_def)
  have "setItem_calls (storage_script [(ascii ''name'', ascii ''it'' @ 39 # ascii ''s'')]) = None"
    unfolding script
    by (subst setItem_calls_step [OF key val]) (simp add: ascii_def)
  then show ?thesis
    by (simp add: set_local_storage_def example_script_driver_def example_page_run_def)
qed


text \<open>
  C4. The round trip does not hold for every mapping. A value with a code point above
  \<open>0xFFFF\<close> is escaped by Python as \<^verbatim>\<open>\Uhhhhhhhh\<close>, which JavaScript reads as the letter
  \<^verbatim>\<open>U\<close> followed by the digits: the emoji \<open>U+1F600\<close> comes back as the nine characters
  \<^verbatim>\<open>U0001f600\<close>. A value with a single quote is left as it is by the escaping and ends
  the literal in the script early: for \<^verbatim>\<open>it's\<close> the script is not accepted and nothing
  is restored.
\<close>

theorem local_storage_round_trip_breaks:
  "get_local_storage example_script_driver [(ascii ''emoji'', [0x1F600])] =
     Inr [(ascii ''emoji'', 92 # ascii ''U0001f600'')] \<and>
   set_local_storage example_script_driver [(ascii ''emoji'', 92 # ascii ''U0001f600'')] [] =
     Inr [(ascii ''emoji'', ascii ''U0001f600'')] \<and>
   get_local_storage example_script_driver [(ascii ''name'', ascii ''it'' @ 39 # ascii ''s'')] =
     Inr [(ascii ''name'', ascii ''it'' @ 39 # ascii ''s'')] \<and>
   set_local_storage example_script_driver [(ascii ''name'', ascii ''it'' @ 39 # ascii ''s'')] [] =
     Inl JavascriptException"
  using emoji_escaped emoji_restored quote_escaped quote_restored by (intro conjI)


end
